theory Spec2Isabelle
  imports Main "HOL-Library.Sublist" "HOL-Library.Word"
begin

section \<open>Strings of the host language\<close>

text \<open>
  The plugin is TypeScript. A string of the host is a sequence of UTF-16 code units, and
  the methods and regular expressions of the source (without the \<open>u\<close> flag) work on code
  units. The text of the priorities file, the names and the other strings of the document
  are modelled as lists of code units, each a 16-bit word. A text of ASCII characters is
  written \<open>js ''...''\<close>, one code unit for each character.
\<close>

type_synonym jsstring = "16 word list"

definition ch :: "char \<Rightarrow> 16 word" where
  "ch c = of_char c"

definition js :: "string \<Rightarrow> jsstring" where
  "js s = map ch s"

definition LF :: "16 word" where
  "LF = 0x0A"

text \<open>
  The white space of \<^verbatim>\<open>trim()\<close> and of \<^verbatim>\<open>\s\<close>: tab, vertical tab, form feed, space,
  no-break space, the byte order mark and the other space separators (U+1680,
  U+2000 to U+200A, U+202F, U+205F, U+3000), together with the four line terminators.
\<close>

definition isLineTerminator :: "16 word \<Rightarrow> bool" where
  "isLineTerminator c = (c = 0x0A \<or> c = 0x0D \<or> c = 0x2028 \<or> c = 0x2029)"

definition isWhiteSpace :: "16 word \<Rightarrow> bool" where
  "isWhiteSpace c =
     (c = 0x09 \<or> c = 0x0B \<or> c = 0x0C \<or> c = 0x20 \<or> c = 0xA0 \<or> c = 0xFEFF
      \<or> c = 0x1680 \<or> (0x2000 \<le> c \<and> c \<le> 0x200A) \<or> c = 0x202F \<or> c = 0x205F
      \<or> c = 0x3000 \<or> isLineTerminator c)"

text \<open>\<^verbatim>\<open>s.trim()\<close>: white space removed at both ends.\<close>

definition trimStart :: "jsstring \<Rightarrow> jsstring" where
  "trimStart s = dropWhile isWhiteSpace s"

definition trimEnd :: "jsstring \<Rightarrow> jsstring" where
  "trimEnd s = rev (dropWhile isWhiteSpace (rev s))"

definition trim :: "jsstring \<Rightarrow> jsstring" where
  "trim s = trimEnd (trimStart s)"

text \<open>
  \<^verbatim>\<open>s.split(sep)\<close> for a separator of one code unit: never the empty list; the empty
  string gives one empty segment. The case of an empty tail cannot arise and is there for
  totality only.
\<close>

fun splitOn :: "'a \<Rightarrow> 'a list \<Rightarrow> 'a list list" where
  "splitOn sep [] = [[]]"
| "splitOn sep (c # cs) =
     (if c = sep then [] # splitOn sep cs
      else (case splitOn sep cs of
              [] \<Rightarrow> [[c]]
            | seg # segs \<Rightarrow> (c # seg) # segs))"

text \<open>\<^verbatim>\<open>lines.join(sep)\<close>.\<close>

fun joinWith :: "'a list \<Rightarrow> 'a list list \<Rightarrow> 'a list" where
  "joinWith sep [] = []"
| "joinWith sep [l] = l"
| "joinWith sep (l # m # ls) = l @ sep @ joinWith sep (m # ls)"

text \<open>
  \<^verbatim>\<open>s.indexOf(pat)\<close> and \<^verbatim>\<open>s.lastIndexOf(pat)\<close>; the result \<open>-1\<close> of the source is
  \<^const>\<open>None\<close>.
\<close>

fun indexOf :: "'a list \<Rightarrow> 'a list \<Rightarrow> nat option" where
  "indexOf pat [] = (if pat = [] then Some 0 else None)"
| "indexOf pat (c # cs) =
     (if prefix pat (c # cs) then Some 0 else map_option Suc (indexOf pat cs))"

fun lastIndexOf :: "'a list \<Rightarrow> 'a list \<Rightarrow> nat option" where
  "lastIndexOf pat [] = (if pat = [] then Some 0 else None)"
| "lastIndexOf pat (c # cs) =
     (case lastIndexOf pat cs of
        Some i \<Rightarrow> Some (Suc i)
      | None \<Rightarrow> if prefix pat (c # cs) then Some 0 else None)"

section \<open>Path utilities\<close>

text \<open>
  The two path functions inspect the slash and the backslash only and pass every other
  character through; a path is modelled as a \<^typ>\<open>string\<close>, the list of its characters.
\<close>

definition backslash :: char where
  "backslash = CHR 0x5C"

text \<open>
  \<^verbatim>\<open>path.replace(/\\/g, '/')\<close>: every backslash becomes a slash.
\<close>

definition replaceBackslashes :: "string \<Rightarrow> string" where
  "replaceBackslashes path = map (\<lambda>c. if c = backslash then CHR ''/'' else c) path"

text \<open>
  \<^verbatim>\<open>.replace(/\/+$/, '')\<close>: without the \<open>m\<close> flag the anchor is the end of the string, so
  the leftmost match starts at the first position from which only slashes follow, and the
  match is removed.
\<close>

fun stripTrailingSlashes :: "string \<Rightarrow> string" where
  "stripTrailingSlashes [] = []"
| "stripTrailingSlashes (c # cs) =
     (if list_all (\<lambda>x. x = CHR ''/'') (c # cs) then []
      else c # stripTrailingSlashes cs)"

text \<open>
  \<^verbatim>\<open>.replace(/\/+/g, '/')\<close>: every maximal run of slashes becomes one slash.
\<close>

function collapseSlashes :: "string \<Rightarrow> string" where
  "collapseSlashes [] = []"
| "collapseSlashes (c # cs) =
     (if c = CHR ''/'' then CHR ''/'' # collapseSlashes (dropWhile (\<lambda>x. x = CHR ''/'') cs)
      else c # collapseSlashes cs)"
  by pat_completeness auto
termination
  by (relation "measure length") (auto simp: less_Suc_eq_le length_dropWhile_le)

text \<open>
  \<^verbatim>\<open>normalizePath\<close>: the empty string is the only falsy string, and it is returned as it
  is.
\<close>

definition normalizePath :: "string \<Rightarrow> string" where
  "normalizePath path =
     (if path = [] then []
      else collapseSlashes (stripTrailingSlashes (replaceBackslashes path)))"

text \<open>
  \<^verbatim>\<open>getProjectNameFromPath\<close>: \<^verbatim>\<open>null\<close> is \<^const>\<open>None\<close>. \<^verbatim>\<open>split('/')[0]\<close> always
  exists; \<^verbatim>\<open>projectName || null\<close> turns the empty string into \<^verbatim>\<open>null\<close>.
\<close>

definition getProjectNameFromPath :: "string \<Rightarrow> string \<Rightarrow> string option" where
  "getProjectNameFromPath fullPath projectFolder =
     (let normalizedPath = normalizePath fullPath;
          normalizedProjectFolder = normalizePath projectFolder
      in if normalizedProjectFolder = []
            \<or> \<not> prefix (normalizedProjectFolder @ ''/'') normalizedPath
         then None
         else (let relativePath = drop (length normalizedProjectFolder + 1) normalizedPath
               in case splitOn (CHR ''/'') relativePath of
                    [] \<Rightarrow> None
                  | projectName # _ \<Rightarrow> if projectName = [] then None else Some projectName))"

section \<open>Arrays of the host language\<close>

text \<open>
  \<^verbatim>\<open>xs.findIndex(p)\<close> and \<^verbatim>\<open>xs.indexOf(x)\<close> (strict equality); \<open>-1\<close> is \<^const>\<open>None\<close>.
  \<^verbatim>\<open>xs.splice(i, 1)\<close> and \<^verbatim>\<open>xs.splice(i, 0, x)\<close> mutate the array; the model returns the
  new array.
\<close>

fun findIndex :: "('a \<Rightarrow> bool) \<Rightarrow> 'a list \<Rightarrow> nat option" where
  "findIndex p [] = None"
| "findIndex p (x # xs) = (if p x then Some 0 else map_option Suc (findIndex p xs))"

definition arrayIndexOf :: "'a \<Rightarrow> 'a list \<Rightarrow> nat option" where
  "arrayIndexOf x xs = findIndex (\<lambda>y. y = x) xs"

definition spliceOut :: "nat \<Rightarrow> 'a list \<Rightarrow> 'a list" where
  "spliceOut i xs = take i xs @ drop (Suc i) xs"

definition spliceIn :: "nat \<Rightarrow> 'a \<Rightarrow> 'a list \<Rightarrow> 'a list" where
  "spliceIn i x xs = take i xs @ x # drop i xs"

section \<open>The data model of the priorities document\<close>

text \<open>
  \<^verbatim>\<open>PriorityEntry\<close>. The fields \<^verbatim>\<open>project\<close> and \<^verbatim>\<open>frontmatter\<close> of the source are
  snapshots of the vault, looked up by project name when the file is parsed; none of the
  functions modelled here reads them, and they are left out.
\<close>

record PriorityEntry =
  projectName :: jsstring
  emoji :: jsstring
  alias' :: "jsstring option"

text \<open>
  \<^verbatim>\<open>SectionItem\<close>, a tagged union. The type is polymorphic in the entries: the parser and
  the writer work on \<^typ>\<open>PriorityEntry\<close>, while the dashboard compares entries by
  reference (\<^verbatim>\<open>item.entry === entry\<close>), for which equality on \<^typ>\<open>'e\<close> stands for the
  identity of the entry object. A document is a tree: the parser creates every
  subsection and every entry once, and no operation inserts a subsection, so no two
  places of a document share a subsection or an array and an update in place is an
  update of the tree.
\<close>

datatype 'e SectionItem =
    Subsection jsstring "'e list"
  | Entry 'e

record 'e PrioritySection =
  name :: jsstring
  orderedItems :: "'e SectionItem list"

text \<open>
  \<^verbatim>\<open>DashboardData\<close>; a \<^verbatim>\<open>ProjectInfo\<close> of the list \<^verbatim>\<open>unlisted\<close> is modelled by its
  name.
\<close>

record DashboardData =
  sections :: "PriorityEntry PrioritySection list"
  unlisted :: "jsstring list"

section \<open>Parsing the priorities file\<close>

text \<open>
  \<^verbatim>\<open>line.match(/^## (.+)$/)\<close> and \<^verbatim>\<open>line.match(/^### (.+)$/)\<close>: the line is the marker
  followed by at least one character, none of them a line terminator (the dot does not
  match one, and without the \<open>m\<close> flag the second anchor is the end of the line). The
  result is the captured name.
\<close>

definition matchHeader :: "jsstring \<Rightarrow> jsstring \<Rightarrow> jsstring option" where
  "matchHeader marker line =
     (if prefix marker line \<and> drop (length marker) line \<noteq> []
         \<and> list_all (\<lambda>c. \<not> isLineTerminator c) (drop (length marker) line)
      then Some (drop (length marker) line) else None)"

definition stripPrefix :: "jsstring \<Rightarrow> jsstring \<Rightarrow> jsstring option" where
  "stripPrefix p s = (if prefix p s then Some (drop (length p) s) else None)"

text \<open>
  The link pattern \<^verbatim>\<open>/\[\[([^\]|]+)(?:\|([^\]]+))?\]\]/\<close> tried at the start of a string.
  Both classes are greedy and are followed by a character outside of them, so only the
  maximal runs can lead to a match: the name is the maximal run without \<^verbatim>\<open>]\<close> and
  \<^verbatim>\<open>|\<close>, then either a bar, the maximal run without \<^verbatim>\<open>]\<close> and the closing brackets, or
  the closing brackets at once. The result is the name and the alias.
\<close>

definition linkAt :: "jsstring \<Rightarrow> (jsstring \<times> jsstring option) option" where
  "linkAt s =
     (case stripPrefix (js ''[['') s of
        None \<Rightarrow> None
      | Some r \<Rightarrow>
          (let nm = takeWhile (\<lambda>c. c \<noteq> ch (CHR '']'') \<and> c \<noteq> ch (CHR ''|'')) r;
               r1 = dropWhile (\<lambda>c. c \<noteq> ch (CHR '']'') \<and> c \<noteq> ch (CHR ''|'')) r
           in if nm = [] then None
              else (case stripPrefix (js ''|'') r1 of
                      Some r2 \<Rightarrow>
                        (let al = takeWhile (\<lambda>c. c \<noteq> ch (CHR '']'')) r2;
                             r3 = dropWhile (\<lambda>c. c \<noteq> ch (CHR '']'')) r2
                         in if al \<noteq> [] \<and> prefix (js '']]'') r3 then Some (nm, Some al) else None)
                    | None \<Rightarrow> if prefix (js '']]'') r1 then Some (nm, None) else None)))"

text \<open>\<^verbatim>\<open>line.match(linkRegex)\<close>: the leftmost position at which the pattern matches.\<close>

fun matchLink :: "jsstring \<Rightarrow> (jsstring \<times> jsstring option) option" where
  "matchLink [] = None"
| "matchLink (c # cs) =
     (case linkAt (c # cs) of
        Some r \<Rightarrow> Some r
      | None \<Rightarrow> matchLink cs)"

text \<open>
  \<^verbatim>\<open>line.substring(0, line.indexOf('[['))\<close>; a negative end, which cannot arise where
  the link pattern has matched, would give the empty string.
\<close>

definition beforeLink :: "jsstring \<Rightarrow> jsstring" where
  "beforeLink line =
     (case indexOf (js ''[['') line of
        Some i \<Rightarrow> take i line
      | None \<Rightarrow> [])"

text \<open>\<^verbatim>\<open>beforeLink.replace(/^-\s*/, '').trim()\<close>.\<close>

definition stripListMarker :: "jsstring \<Rightarrow> jsstring" where
  "stripListMarker s =
     (case s of
        [] \<Rightarrow> []
      | c # cs \<Rightarrow> if c = ch (CHR ''-'') then dropWhile isWhiteSpace cs else s)"

definition emojiPartOf :: "jsstring \<Rightarrow> jsstring" where
  "emojiPartOf line = trim (stripListMarker (beforeLink line))"

text \<open>
  The state of the loop of \<^verbatim>\<open>parsePrioritiesFile\<close>. The variable \<^verbatim>\<open>currentSection\<close>
  of the source is an alias of the section pushed last onto \<^verbatim>\<open>sections\<close>, and it is
  \<^verbatim>\<open>null\<close> exactly as long as nothing was pushed: the model keeps the list only, and an
  update of the current section is an update of its last element. The set
  \<^verbatim>\<open>foundProjectNames\<close> is kept as a list.
\<close>

record ParseState =
  parsedSections :: "PriorityEntry PrioritySection list"
  currentSubsection :: "(jsstring \<times> PriorityEntry list) option"
  foundProjectNames :: "jsstring list"

definition initialParseState :: ParseState where
  "initialParseState =
     \<lparr>parsedSections = [], currentSubsection = None, foundProjectNames = []\<rparr>"

text \<open>\<^verbatim>\<open>currentSection.orderedItems.push(item)\<close>, for a current section that exists.\<close>

definition pushItem ::
  "PriorityEntry SectionItem \<Rightarrow> PriorityEntry PrioritySection list
     \<Rightarrow> PriorityEntry PrioritySection list" where
  "pushItem item secs =
     (case rev secs of
        [] \<Rightarrow> []
      | cur # earlier \<Rightarrow>
          rev earlier @ [cur\<lparr>orderedItems := orderedItems cur @ [item]\<rparr>])"

text \<open>
  The entry of a link line. The emoji of the frontmatter of the project's main file, when
  the vault has one (\<open>fmEmoji\<close>, a parameter of the model), wins over the text before the
  link unless it is empty: \<^verbatim>\<open>frontmatter?.emoji || emojiPart\<close>.
\<close>

definition makeEntry ::
  "(jsstring \<Rightarrow> jsstring option) \<Rightarrow> jsstring \<Rightarrow> jsstring \<Rightarrow> jsstring option \<Rightarrow> PriorityEntry" where
  "makeEntry fmEmoji line pn al =
     \<lparr>projectName = pn,
      emoji = (case fmEmoji pn of
                 Some e \<Rightarrow> if e \<noteq> [] then e else emojiPartOf line
               | None \<Rightarrow> emojiPartOf line),
      alias' = al\<rparr>"

text \<open>
  One turn of the loop for a line that is not the separator: a section header, a
  subsection header, an entry line, or a line that is skipped.
\<close>

definition parseLine :: "(jsstring \<Rightarrow> jsstring option) \<Rightarrow> ParseState \<Rightarrow> jsstring \<Rightarrow> ParseState" where
  "parseLine fmEmoji st line =
     (case matchHeader (js ''## '') line of
        Some sectionName \<Rightarrow>
          (let flushed =
                 (case currentSubsection st of
                    Some (sn, es) \<Rightarrow>
                      if parsedSections st \<noteq> []
                      then st\<lparr>parsedSections := pushItem (Subsection sn es) (parsedSections st),
                              currentSubsection := None\<rparr>
                      else st
                  | None \<Rightarrow> st)
           in flushed\<lparr>parsedSections :=
                parsedSections flushed @ [\<lparr>name = sectionName, orderedItems = []\<rparr>]\<rparr>)
      | None \<Rightarrow>
          (case matchHeader (js ''### '') line of
             Some subsectionName \<Rightarrow>
               if parsedSections st = [] then st
               else (case currentSubsection st of
                       Some (sn, es) \<Rightarrow>
                         st\<lparr>parsedSections := pushItem (Subsection sn es) (parsedSections st),
                            currentSubsection := Some (subsectionName, [])\<rparr>
                     | None \<Rightarrow> st\<lparr>currentSubsection := Some (subsectionName, [])\<rparr>)
           | None \<Rightarrow>
               (case matchLink line of
                  Some (pn, al) \<Rightarrow>
                    if parsedSections st = [] then st
                    else (let entry = makeEntry fmEmoji line pn al;
                              st1 = st\<lparr>foundProjectNames := foundProjectNames st @ [pn]\<rparr>
                          in case currentSubsection st1 of
                               Some (sn, es) \<Rightarrow> st1\<lparr>currentSubsection := Some (sn, es @ [entry])\<rparr>
                             | None \<Rightarrow>
                                 st1\<lparr>parsedSections := pushItem (Entry entry) (parsedSections st1)\<rparr>)
                | None \<Rightarrow> st)))"

text \<open>
  The loop over the lines, with its \<^verbatim>\<open>break\<close> at the first line whose trimmed text is
  the separator.
\<close>

fun parseLines :: "(jsstring \<Rightarrow> jsstring option) \<Rightarrow> ParseState \<Rightarrow> jsstring list \<Rightarrow> ParseState" where
  "parseLines fmEmoji st [] = st"
| "parseLines fmEmoji st (line # rest) =
     (if trim line = js ''---'' then st
      else parseLines fmEmoji (parseLine fmEmoji st line) rest)"

text \<open>
  After the loop: the open subsection is flushed, and the unlisted projects are the tagged
  ones (\<open>tagged\<close>, the names of the projects of the vault that carry the tag, a
  parameter of the model) whose name was not found.
\<close>

definition finishParse :: "jsstring list \<Rightarrow> ParseState \<Rightarrow> DashboardData" where
  "finishParse tagged st =
     \<lparr>sections =
        (case currentSubsection st of
           Some (sn, es) \<Rightarrow>
             if parsedSections st \<noteq> [] then pushItem (Subsection sn es) (parsedSections st)
             else parsedSections st
         | None \<Rightarrow> parsedSections st),
      unlisted = filter (\<lambda>p. \<not> List.member (foundProjectNames st) p) tagged\<rparr>"

text \<open>
  \<^verbatim>\<open>parsePrioritiesFile\<close> on the text of the file, and on the file itself: \<^const>\<open>None\<close>
  is the missing file, for which the source returns \<^verbatim>\<open>null\<close>.
\<close>

definition parsePrioritiesContent ::
  "(jsstring \<Rightarrow> jsstring option) \<Rightarrow> jsstring list \<Rightarrow> jsstring \<Rightarrow> DashboardData" where
  "parsePrioritiesContent fmEmoji tagged content =
     finishParse tagged (parseLines fmEmoji initialParseState (splitOn LF content))"

definition parsePrioritiesFile ::
  "(jsstring \<Rightarrow> jsstring option) \<Rightarrow> jsstring list \<Rightarrow> jsstring option \<Rightarrow> DashboardData option" where
  "parsePrioritiesFile fmEmoji tagged file = map_option (parsePrioritiesContent fmEmoji tagged) file"

section \<open>Writing the priorities file\<close>

text \<open>
  \<^verbatim>\<open>formatPriorityEntry\<close>; an empty emoji and an empty alias are falsy.
\<close>

definition formatPriorityEntry :: "PriorityEntry \<Rightarrow> jsstring" where
  "formatPriorityEntry entry =
     (let emojiPart = (if emoji entry \<noteq> [] then emoji entry @ js '' '' else []);
          linkPart = (case alias' entry of
                        Some a \<Rightarrow>
                          if a \<noteq> [] then js ''[['' @ projectName entry @ js ''|'' @ a @ js '']]''
                          else js ''[['' @ projectName entry @ js '']]''
                      | None \<Rightarrow> js ''[['' @ projectName entry @ js '']]'')
      in js ''- '' @ emojiPart @ linkPart)"

fun itemLines :: "PriorityEntry SectionItem \<Rightarrow> jsstring list" where
  "itemLines (Subsection sn es) = (js ''### '' @ sn) # map formatPriorityEntry es"
| "itemLines (Entry e) = [formatPriorityEntry e]"

definition sectionLines :: "PriorityEntry PrioritySection \<Rightarrow> jsstring list" where
  "sectionLines section =
     (js ''## '' @ name section) # concat (map itemLines (orderedItems section)) @ [[]]"

text \<open>
  \<^verbatim>\<open>writePrioritiesFile\<close> on the text of the file: the suffix is the text from the first
  line feed followed by three dashes, and the sections are rebuilt in front of it.
\<close>

definition writePrioritiesContent :: "DashboardData \<Rightarrow> jsstring \<Rightarrow> jsstring" where
  "writePrioritiesContent data currentContent =
     (let suffix = (case indexOf (LF # (js ''---'')) currentContent of
                      Some separatorIndex \<Rightarrow> drop separatorIndex currentContent
                    | None \<Rightarrow> []);
          lines = concat (map sectionLines (sections data))
      in joinWith [LF] lines @ suffix)"

definition writePrioritiesFile :: "DashboardData \<Rightarrow> jsstring option \<Rightarrow> jsstring option" where
  "writePrioritiesFile data file = map_option (writePrioritiesContent data) file"

section \<open>Editing the text of the priorities file\<close>

text \<open>
  The functions of this section work on the raw text with regular expressions built from
  the project name. \<^verbatim>\<open>escapeRegex\<close> puts a backslash before every character that is
  special in a pattern, so the name stands for itself. The three link patterns, tried at
  the start of a string, give the rest of the string after the match:
  \<^verbatim>\<open>\[\[NAME\]\]\<close>, \<^verbatim>\<open>\[\[NAME\|[^\]]+\]\]\<close> and \<^verbatim>\<open>\[\[NAME(\|[^\]]+)?\]\]\<close>. The class
  is greedy and is followed by a closing bracket, so only its maximal run can match.
\<close>

definition matchPlainLink :: "jsstring \<Rightarrow> jsstring \<Rightarrow> jsstring option" where
  "matchPlainLink pn s = stripPrefix (js ''[['' @ pn @ js '']]'') s"

definition matchAliasRest :: "jsstring \<Rightarrow> jsstring option" where
  "matchAliasRest r =
     (case stripPrefix (js ''|'') r of
        None \<Rightarrow> None
      | Some r2 \<Rightarrow>
          if takeWhile (\<lambda>c. c \<noteq> ch (CHR '']'')) r2 \<noteq> []
          then stripPrefix (js '']]'') (dropWhile (\<lambda>c. c \<noteq> ch (CHR '']'')) r2)
          else None)"

definition matchAliasLink :: "jsstring \<Rightarrow> jsstring \<Rightarrow> jsstring option" where
  "matchAliasLink pn s =
     (case stripPrefix (js ''[['' @ pn) s of
        None \<Rightarrow> None
      | Some r \<Rightarrow> matchAliasRest r)"

definition matchAnyLink :: "jsstring \<Rightarrow> jsstring \<Rightarrow> jsstring option" where
  "matchAnyLink pn s =
     (case stripPrefix (js ''[['' @ pn) s of
        None \<Rightarrow> None
      | Some r \<Rightarrow>
          (case matchAliasRest r of
             Some rest \<Rightarrow> Some rest
           | None \<Rightarrow> stripPrefix (js '']]'') r))"

text \<open>
  A line pattern \<^verbatim>\<open>^.*LINK.*$\<close> with the flags \<open>gm\<close>, tried where a line starts. The
  first \<^verbatim>\<open>.*\<close> is greedy and cannot pass a line terminator: of the positions of the
  line at which the link pattern matches, the last is taken. The match then runs on to
  the next line terminator or to the end of the text. The result is the rest of the text
  after the match.
\<close>

fun lastMatchInLine :: "(jsstring \<Rightarrow> jsstring option) \<Rightarrow> jsstring \<Rightarrow> jsstring option" where
  "lastMatchInLine m [] = m []"
| "lastMatchInLine m (c # cs) =
     (if isLineTerminator c then m (c # cs)
      else (case lastMatchInLine m cs of
              Some r \<Rightarrow> Some r
            | None \<Rightarrow> m (c # cs)))"

definition matchLine :: "(jsstring \<Rightarrow> jsstring option) \<Rightarrow> jsstring \<Rightarrow> jsstring option" where
  "matchLine m s =
     map_option (dropWhile (\<lambda>c. \<not> isLineTerminator c)) (lastMatchInLine m s)"

text \<open>
  \<^verbatim>\<open>content.replace(pattern, '')\<close> for a line pattern: the text is scanned from the left,
  a match is tried at every position where a line starts (at the start of the text and
  after a line terminator), a match is dropped and the scan goes on behind it. An empty
  match, which the link patterns never give, would move the scan on by one character.
\<close>

function removeLineMatches :: "(jsstring \<Rightarrow> jsstring option) \<Rightarrow> bool \<Rightarrow> jsstring \<Rightarrow> jsstring" where
  "removeLineMatches m atLineStart [] = []"
| "removeLineMatches m atLineStart (c # cs) =
     (case (if atLineStart then matchLine m (c # cs) else None) of
        Some r \<Rightarrow>
          if length r < length (c # cs)
          then removeLineMatches m
                 (isLineTerminator ((c # cs) ! (length (c # cs) - length r - 1))) r
          else c # removeLineMatches m (isLineTerminator c) cs
      | None \<Rightarrow> c # removeLineMatches m (isLineTerminator c) cs)"
  by pat_completeness auto
termination
  by (relation "measure (\<lambda>(m, b, s). length s)") auto

text \<open>
  \<^verbatim>\<open>content.match(pattern)\<close> with the flag \<open>g\<close> gives all matches or \<^verbatim>\<open>null\<close>; the
  source uses the first one. This is the text of the first match.
\<close>

fun firstLineMatch :: "(jsstring \<Rightarrow> jsstring option) \<Rightarrow> bool \<Rightarrow> jsstring \<Rightarrow> jsstring option" where
  "firstLineMatch m atLineStart [] =
     (if atLineStart then map_option (\<lambda>r. []) (matchLine m []) else None)"
| "firstLineMatch m atLineStart (c # cs) =
     (case (if atLineStart then matchLine m (c # cs) else None) of
        Some r \<Rightarrow> Some (take (length (c # cs) - length r) (c # cs))
      | None \<Rightarrow> firstLineMatch m (isLineTerminator c) cs)"

text \<open>
  \<^verbatim>\<open>content.replace(/\n{3,}/g, '\n\n')\<close>: every maximal run of three or more line feeds
  becomes two.
\<close>

function collapseBlankLines :: "jsstring \<Rightarrow> jsstring" where
  "collapseBlankLines [] = []"
| "collapseBlankLines (c # cs) =
     (if 3 \<le> length (takeWhile (\<lambda>x. x = LF) (c # cs))
      then LF # LF # collapseBlankLines (dropWhile (\<lambda>x. x = LF) (c # cs))
      else c # collapseBlankLines cs)"
  by pat_completeness auto
termination
proof (relation "measure length")
  show "wf (measure length)" by simp
next
  fix c :: "16 word" and cs :: jsstring
  assume "3 \<le> length (takeWhile (\<lambda>x. x = LF) (c # cs))"
  then have "c = LF" by (auto split: if_splits)
  then have "dropWhile (\<lambda>x. x = LF) (c # cs) = dropWhile (\<lambda>x. x = LF) cs" by simp
  then show "(dropWhile (\<lambda>x. x = LF) (c # cs), c # cs) \<in> measure length"
    by (simp add: less_Suc_eq_le length_dropWhile_le)
next
  fix c :: "16 word" and cs :: jsstring
  show "(cs, c # cs) \<in> measure length" by simp
qed

text \<open>
  \<^verbatim>\<open>content.match(new RegExp(`^## NAME$`, 'm'))\<close>: the index of the first line that is
  the header, a line starting at the start of the text or after a line terminator and
  ending at a line terminator or at the end of the text.
\<close>

definition endsLine :: "jsstring \<Rightarrow> bool" where
  "endsLine r = (case r of [] \<Rightarrow> True | c # cs \<Rightarrow> isLineTerminator c)"

fun findHeaderLine :: "jsstring \<Rightarrow> bool \<Rightarrow> jsstring \<Rightarrow> nat option" where
  "findHeaderLine h atLineStart [] = (if atLineStart \<and> h = [] then Some 0 else None)"
| "findHeaderLine h atLineStart (c # cs) =
     (if atLineStart \<and> prefix h (c # cs) \<and> endsLine (drop (length h) (c # cs)) then Some 0
      else map_option Suc (findHeaderLine h (isLineTerminator c) cs))"

text \<open>
  \<^verbatim>\<open>removeFromPriorities\<close> on the text of the file: both patterns in turn, then the blank
  lines.
\<close>

definition removeFromPrioritiesContent :: "jsstring \<Rightarrow> jsstring \<Rightarrow> jsstring" where
  "removeFromPrioritiesContent pn content =
     collapseBlankLines
       (removeLineMatches (matchAliasLink pn) True
          (removeLineMatches (matchPlainLink pn) True content))"

definition removeFromPriorities :: "jsstring \<Rightarrow> jsstring option \<Rightarrow> jsstring option" where
  "removeFromPriorities pn file = map_option (removeFromPrioritiesContent pn) file"

text \<open>
  \<^verbatim>\<open>addToPriorities\<close> on the text of the file. The section name goes into the pattern as
  it is; every caller passes \<^verbatim>\<open>Additional\<close> or one of the four section names of the
  status table, which have no special character, so the pattern is the literal header.
  Without the header the new section goes before the last \<^verbatim>\<open>---\<close> of the text when there
  is one behind the first character, and nowhere otherwise.
\<close>

definition addToPrioritiesContent :: "jsstring \<Rightarrow> jsstring \<Rightarrow> jsstring option \<Rightarrow> jsstring \<Rightarrow> jsstring" where
  "addToPrioritiesContent pn section emojiArg content =
     (let emojiPart = (case emojiArg of
                         Some e \<Rightarrow> if e \<noteq> [] then e @ js '' '' else []
                       | None \<Rightarrow> [])
      in case findHeaderLine (js ''## '' @ section) True content of
           Some i \<Rightarrow>
             (let insertPos = i + length (js ''## '' @ section);
                  newEntry = [LF] @ js ''- '' @ emojiPart @ js ''[['' @ pn @ js '']]''
              in take insertPos content @ newEntry @ drop insertPos content)
         | None \<Rightarrow>
             (case lastIndexOf (js ''---'') content of
                Some separatorIndex \<Rightarrow>
                  if 0 < separatorIndex
                  then take separatorIndex content
                       @ js ''## '' @ section @ [LF] @ js ''- '' @ emojiPart @ js ''[['' @ pn @ js '']]'' @ [LF, LF]
                       @ drop separatorIndex content
                  else content
              | None \<Rightarrow> content))"

definition addToPriorities ::
  "jsstring \<Rightarrow> jsstring \<Rightarrow> jsstring option \<Rightarrow> jsstring option \<Rightarrow> jsstring option" where
  "addToPriorities pn section emojiArg file =
     map_option (addToPrioritiesContent pn section emojiArg) file"

text \<open>
  \<^verbatim>\<open>moveProjectInPriorities\<close> on the text of the file: the first line with a link to the
  project is kept, every such line is removed, and the kept line goes below the header of
  the target section, into a new section before the last \<^verbatim>\<open>---\<close>, or into a new section
  at the end.
\<close>

definition moveProjectInPrioritiesContent :: "jsstring \<Rightarrow> jsstring \<Rightarrow> jsstring \<Rightarrow> jsstring" where
  "moveProjectInPrioritiesContent pn targetSection content =
     (case firstLineMatch (matchAnyLink pn) True content of
        None \<Rightarrow> addToPrioritiesContent pn targetSection None content
      | Some projectLine \<Rightarrow>
          (let content1 = collapseBlankLines (removeLineMatches (matchAnyLink pn) True content)
           in case findHeaderLine (js ''## '' @ targetSection) True content1 of
                Some i \<Rightarrow>
                  (let insertPos = i + length (js ''## '' @ targetSection)
                   in take insertPos content1 @ [LF] @ projectLine @ drop insertPos content1)
              | None \<Rightarrow>
                  (let newSection = js ''## '' @ targetSection @ [LF] @ projectLine
                   in case lastIndexOf (js ''---'') content1 of
                        Some separatorIndex \<Rightarrow>
                          if 0 < separatorIndex
                          then take separatorIndex content1 @ newSection @ [LF, LF]
                               @ drop separatorIndex content1
                          else content1 @ [LF] @ newSection @ [LF]
                      | None \<Rightarrow> content1 @ [LF] @ newSection @ [LF])))"

definition moveProjectInPriorities :: "jsstring \<Rightarrow> jsstring \<Rightarrow> jsstring option \<Rightarrow> jsstring option" where
  "moveProjectInPriorities pn targetSection file =
     map_option (moveProjectInPrioritiesContent pn targetSection) file"

text \<open>
  \<^verbatim>\<open>getStatusSection\<close>. The table \<^verbatim>\<open>statusSectionMap\<close> is an object literal, and
  \<^verbatim>\<open>statusSectionMap[status]\<close> also finds the members that every object inherits from
  \<^verbatim>\<open>Object.prototype\<close>. They are functions (the prototype object itself for
  \<^verbatim>\<open>__proto__\<close>), so they are truthy and \<^verbatim>\<open>|| null\<close> lets them through: for these
  statuses the function returns a value that is not a string.
\<close>

datatype statusSection =
    SectionName jsstring
  | InheritedMember
  | NoSection

definition objectPrototypeMembers :: "string list" where
  "objectPrototypeMembers =
     [''constructor'', ''hasOwnProperty'', ''isPrototypeOf'', ''propertyIsEnumerable'',
      ''toLocaleString'', ''toString'', ''valueOf'', ''__proto__'', ''__defineGetter__'',
      ''__defineSetter__'', ''__lookupGetter__'', ''__lookupSetter__'']"

definition getStatusSection :: "jsstring \<Rightarrow> statusSection" where
  "getStatusSection status =
     (if status = js ''active'' then SectionName (js ''Active'')
      else if status = js ''coming-soon'' then SectionName (js ''Coming Soon'')
      else if status = js ''deferred'' then SectionName (js ''Deferred Effort'')
      else if status = js ''on-hold'' then SectionName (js ''On Hold'')
      else if List.member (map js objectPrototypeMembers) status then InheritedMember
      else NoSection)"

text \<open>
  \<^verbatim>\<open>syncProjectStatusToPriorities\<close>, for the project of the given name. The call
  returns with the file in a new state (\<^const>\<open>None\<close> is the missing file), or, for a
  status that is an inherited member, goes on in \<^verbatim>\<open>moveProjectInPriorities\<close> with a
  function in the place of the section name. With a line that links to the project,
  \<^verbatim>\<open>escapeRegex\<close> is then applied to the function and throws a type error before
  anything is written. Without such a line \<^verbatim>\<open>addToPriorities\<close> builds its pattern and the
  new header from the text that the host gives for the function, which the language
  leaves to the host: the model does not say what is written.
\<close>

datatype syncResult =
    Returns "jsstring option"
  | ThrowsTypeError
  | HostDependent

definition syncProjectStatusToPriorities :: "jsstring \<Rightarrow> jsstring \<Rightarrow> jsstring option \<Rightarrow> syncResult" where
  "syncProjectStatusToPriorities pn newStatus file =
     (if newStatus = js ''complete'' then Returns (removeFromPriorities pn file)
      else (case getStatusSection newStatus of
              SectionName targetSection \<Rightarrow> Returns (moveProjectInPriorities pn targetSection file)
            | NoSection \<Rightarrow> Returns file
            | InheritedMember \<Rightarrow>
                (case file of
                   None \<Rightarrow> Returns None
                 | Some content \<Rightarrow>
                     (case firstLineMatch (matchAnyLink pn) True content of
                        Some projectLine \<Rightarrow> ThrowsTypeError
                      | None \<Rightarrow> HostDependent))))"

section \<open>Moving an entry in the parsed document\<close>

text \<open>
  \<^verbatim>\<open>removeEntryFromSection\<close> of the dashboard view. The loop over \<^verbatim>\<open>orderedItems\<close>
  returns at the first item that is the entry or a subsection holding it; the entry is
  compared by reference. The recursion follows the loop: the item at the index of the
  loop is the head of the rest of the list.
\<close>

fun removeEntryFromItems :: "'e \<Rightarrow> 'e SectionItem list \<Rightarrow> 'e SectionItem list" where
  "removeEntryFromItems entry [] = []"
| "removeEntryFromItems entry (Entry x # items) =
     (if x = entry then items
      else Entry x # removeEntryFromItems entry items)"
| "removeEntryFromItems entry (Subsection sn es # items) =
     (case arrayIndexOf entry es of
        Some idx \<Rightarrow> Subsection sn (spliceOut idx es) # items
      | None \<Rightarrow> Subsection sn es # removeEntryFromItems entry items)"

definition removeEntryFromSection :: "'e PrioritySection \<Rightarrow> 'e \<Rightarrow> 'e PrioritySection" where
  "removeEntryFromSection section entry =
     section\<lparr>orderedItems := removeEntryFromItems entry (orderedItems section)\<rparr>"

text \<open>
  \<^verbatim>\<open>moveProjectToSubsection\<close>, first part: the search for the entry by project name,
  which removes it where it is found. The inner loop over the items of a section gives
  the entry and the remaining items; the outer loop over the sections gives the entry,
  the index of its section and the remaining sections.
\<close>

fun takeEntryFromItems ::
  "jsstring \<Rightarrow> PriorityEntry SectionItem list
     \<Rightarrow> (PriorityEntry \<times> PriorityEntry SectionItem list) option" where
  "takeEntryFromItems pn [] = None"
| "takeEntryFromItems pn (Entry x # items) =
     (if projectName x = pn then Some (x, items)
      else map_option (\<lambda>(found, rest). (found, Entry x # rest)) (takeEntryFromItems pn items))"
| "takeEntryFromItems pn (Subsection sn es # items) =
     (case findIndex (\<lambda>e. projectName e = pn) es of
        Some idx \<Rightarrow> Some (es ! idx, Subsection sn (spliceOut idx es) # items)
      | None \<Rightarrow>
          map_option (\<lambda>(found, rest). (found, Subsection sn es # rest))
            (takeEntryFromItems pn items))"

fun takeEntryFromSections ::
  "jsstring \<Rightarrow> PriorityEntry PrioritySection list
     \<Rightarrow> (PriorityEntry \<times> nat \<times> PriorityEntry PrioritySection list) option" where
  "takeEntryFromSections pn [] = None"
| "takeEntryFromSections pn (section # rest) =
     (case takeEntryFromItems pn (orderedItems section) of
        Some (found, items) \<Rightarrow> Some (found, 0, section\<lparr>orderedItems := items\<rparr> # rest)
      | None \<Rightarrow>
          map_option (\<lambda>(found, si, rest'). (found, Suc si, section # rest'))
            (takeEntryFromSections pn rest))"

text \<open>
  Second part: the entry goes back into the section it was found in. A target group that
  is \<^verbatim>\<open>null\<close> or the empty string is falsy.
\<close>

fun isSubsection :: "'e SectionItem \<Rightarrow> bool" where
  "isSubsection (Subsection sn es) = True"
| "isSubsection (Entry e) = False"

fun isSubsectionNamed :: "jsstring \<Rightarrow> 'e SectionItem \<Rightarrow> bool" where
  "isSubsectionNamed g (Subsection sn es) = (sn = g)"
| "isSubsectionNamed g (Entry e) = False"

fun pushEntry :: "'e \<Rightarrow> 'e SectionItem \<Rightarrow> 'e SectionItem" where
  "pushEntry e (Subsection sn es) = Subsection sn (es @ [e])"
| "pushEntry e (Entry x) = Entry x"

definition insertBeforeFirstSubsection ::
  "'e \<Rightarrow> 'e SectionItem list \<Rightarrow> 'e SectionItem list" where
  "insertBeforeFirstSubsection foundEntry items =
     (let insertIdx = (case findIndex isSubsection items of
                         Some i \<Rightarrow> i
                       | None \<Rightarrow> length items)
      in spliceIn insertIdx (Entry foundEntry) items)"

definition placeEntry ::
  "jsstring option \<Rightarrow> 'e \<Rightarrow> 'e SectionItem list \<Rightarrow> 'e SectionItem list" where
  "placeEntry targetGroup foundEntry items =
     (case targetGroup of
        Some g \<Rightarrow>
          if g \<noteq> []
          then (case findIndex (isSubsectionNamed g) items of
                  Some i \<Rightarrow> items[i := pushEntry foundEntry (items ! i)]
                | None \<Rightarrow> items @ [Entry foundEntry])
          else insertBeforeFirstSubsection foundEntry items
      | None \<Rightarrow> insertBeforeFirstSubsection foundEntry items)"

text \<open>
  The two parts together, on the parsed document: \<^const>\<open>None\<close> when no entry has the
  name, in which case the source returns without writing.
\<close>

definition moveEntryToSubsection ::
  "jsstring \<Rightarrow> jsstring option \<Rightarrow> DashboardData \<Rightarrow> DashboardData option" where
  "moveEntryToSubsection pn targetGroup data =
     (case takeEntryFromSections pn (sections data) of
        None \<Rightarrow> None
      | Some (foundEntry, foundSectionIdx, secs) \<Rightarrow>
          Some (data\<lparr>sections :=
            secs[foundSectionIdx :=
              (secs ! foundSectionIdx)\<lparr>orderedItems :=
                placeEntry targetGroup foundEntry (orderedItems (secs ! foundSectionIdx))\<rparr>]\<rparr>))"

text \<open>
  \<^verbatim>\<open>moveProjectToSubsection\<close> on the file: parse, move, write. The file is left as it is
  when it is missing or when no entry has the name.
\<close>

definition moveProjectToSubsection ::
  "(jsstring \<Rightarrow> jsstring option) \<Rightarrow> jsstring list \<Rightarrow> jsstring \<Rightarrow> jsstring option \<Rightarrow> jsstring option
     \<Rightarrow> jsstring option" where
  "moveProjectToSubsection fmEmoji tagged pn targetGroup file =
     (case parsePrioritiesFile fmEmoji tagged file of
        None \<Rightarrow> file
      | Some data \<Rightarrow>
          (case moveEntryToSubsection pn targetGroup data of
             None \<Rightarrow> file
           | Some data' \<Rightarrow> writePrioritiesFile data' file))"

text \<open>
  The trailing region of a text: everything from the first separator line, the first
  line whose trimmed text is \<^verbatim>\<open>---\<close>, at which the parser stops.
\<close>

definition trailingLines :: "jsstring \<Rightarrow> jsstring list" where
  "trailingLines content = dropWhile (\<lambda>l. trim l \<noteq> (js ''---'')) (splitOn LF content)"

definition trailingRegion :: "jsstring \<Rightarrow> jsstring" where
  "trailingRegion content = joinWith [LF] (trailingLines content)"

section \<open>Notions used to state the properties\<close>

text \<open>
  The entries of an item and of a section in the order in which the loops of the source
  visit them: an entry at the top level, or the entries of a subsection from first to
  last.
\<close>

fun itemEntries :: "'e SectionItem \<Rightarrow> 'e list" where
  "itemEntries (Subsection sn es) = es"
| "itemEntries (Entry e) = [e]"

definition itemsEntries :: "'e SectionItem list \<Rightarrow> 'e list" where
  "itemsEntries items = concat (map itemEntries items)"

definition sectionEntries :: "'e PrioritySection \<Rightarrow> 'e list" where
  "sectionEntries section = itemsEntries (orderedItems section)"

text \<open>
  What is left of an item once the first occurrence of an entry is taken out of it: nothing
  of a top-level entry, the subsection with one entry less of a subsection.
\<close>

fun itemWithout :: "'e \<Rightarrow> 'e SectionItem \<Rightarrow> 'e SectionItem list" where
  "itemWithout e (Subsection sn es) = [Subsection sn (remove1 e es)]"
| "itemWithout e (Entry x) = []"


text \<open>
  Where an entry goes among the items of its section, in the words of the specification:
  at the end of the first subsection that has the name of the target group; at the end of
  the top level when no subsection has that name; without a target group, at the top
  level right before the first subsection, which is the end when there is no subsection.
  A target group is \<^verbatim>\<open>null\<close> or a non-empty name; the empty string, which the test
  \<^verbatim>\<open>if (targetGroup)\<close> of the source takes for no target group, is listed with
  \<^verbatim>\<open>null\<close>.
\<close>

inductive placedAs ::
  "jsstring option \<Rightarrow> 'e \<Rightarrow> 'e SectionItem list \<Rightarrow> 'e SectionItem list \<Rightarrow> bool" where
  into_group: "g \<noteq> [] \<Longrightarrow> \<forall>i\<in>set x. \<not> isSubsectionNamed g i \<Longrightarrow>
     placedAs (Some g) e (x @ Subsection g es # y) (x @ Subsection g (es @ [e]) # y)"
| fallback: "g \<noteq> [] \<Longrightarrow> \<forall>i\<in>set items. \<not> isSubsectionNamed g i \<Longrightarrow>
     placedAs (Some g) e items (items @ [Entry e])"
| ungrouped: "targetGroup = None \<or> targetGroup = Some [] \<Longrightarrow>
     \<forall>i\<in>set x. \<not> isSubsection i \<Longrightarrow> y = [] \<or> isSubsection (hd y) \<Longrightarrow>
     placedAs targetGroup e (x @ y) (x @ Entry e # y)"

text \<open>
  The lines of a text by what the parser takes them for, in the order of its tests: a
  section header, else a subsection header, else a line with a link. The names of the
  sections are the names of the section headers; the project names of the entries are
  those of the link lines that come after the first section header.
\<close>

definition sectionNamesOfLines :: "jsstring list \<Rightarrow> jsstring list" where
  "sectionNamesOfLines ls = List.map_filter (matchHeader (js ''## '')) ls"

fun entryNamesOfLines :: "bool \<Rightarrow> jsstring list \<Rightarrow> jsstring list" where
  "entryNamesOfLines inSection [] = []"
| "entryNamesOfLines inSection (l # ls) =
     (case matchHeader (js ''## '') l of
        Some sectionName \<Rightarrow> entryNamesOfLines True ls
      | None \<Rightarrow>
          (case matchHeader (js ''### '') l of
             Some subsectionName \<Rightarrow> entryNamesOfLines inSection ls
           | None \<Rightarrow>
               (case matchLink l of
                  Some (pn, al) \<Rightarrow>
                    (if inSection then [pn] else []) @ entryNamesOfLines inSection ls
                | None \<Rightarrow> entryNamesOfLines inSection ls)))"

text \<open>The entries of a document in the order of the text.\<close>

definition documentEntries :: "DashboardData \<Rightarrow> PriorityEntry list" where
  "documentEntries data = concat (map sectionEntries (sections data))"


text \<open>
  The state of the parser between two lines, read as the entries seen so far: the entries
  of the finished sections followed by the entries of the subsection still open. The parser
  keeps an open subsection only once a section exists.
\<close>

definition openEntries :: "ParseState \<Rightarrow> PriorityEntry list" where
  "openEntries st = (case currentSubsection st of Some (sn, es) \<Rightarrow> es | None \<Rightarrow> [])"

definition stateEntries :: "ParseState \<Rightarrow> PriorityEntry list" where
  "stateEntries st = concat (map sectionEntries (parsedSections st)) @ openEntries st"

definition stateOk :: "ParseState \<Rightarrow> bool" where
  "stateOk st = ((currentSubsection st = None \<or> parsedSections st \<noteq> [])
     \<and> foundProjectNames st = map projectName (stateEntries st))"
section \<open>Properties of the array primitives\<close>

lemma findIndex_None_iff: "findIndex p xs = None \<longleftrightarrow> (\<forall>x\<in>set xs. \<not> p x)"
  by (induction xs) auto


lemma arrayIndexOf_None_iff: "arrayIndexOf e es = None \<longleftrightarrow> e \<notin> set es"
  by (auto simp: arrayIndexOf_def findIndex_None_iff)

lemma spliceOut_arrayIndexOf:
  "arrayIndexOf e es = Some i \<Longrightarrow> spliceOut i es = remove1 e es \<and> e \<in> set es"
  unfolding arrayIndexOf_def spliceOut_def
proof (induction es arbitrary: i)
  case Nil
  then show ?case by simp
next
  case (Cons x xs)
  show ?case
  proof (cases "x = e")
    case True
    with Cons.prems show ?thesis by simp
  next
    case False
    with Cons.prems obtain j where j: "findIndex (\<lambda>y. y = e) xs = Some j" "i = Suc j"
      by auto
    with Cons.IH [OF j(1)] False show ?thesis by simp
  qed
qed

lemma arrayIndexOf_Some_mem: "arrayIndexOf e es = Some i \<Longrightarrow> e \<in> set es"
  using arrayIndexOf_None_iff [of e es] by auto

section \<open>Removing an entry from a section\<close>

lemma removeEntryFromItems_absent:
  "e \<notin> set (itemsEntries items) \<Longrightarrow> removeEntryFromItems e items = items"
proof (induction items)
  case Nil
  then show ?case by simp
next
  case (Cons it items)
  then show ?case
    by (cases it)
      (auto simp: itemsEntries_def split: option.splits dest: arrayIndexOf_Some_mem)
qed

lemma removeEntryFromItems_found:
  "e \<in> set (itemEntries it) \<Longrightarrow> removeEntryFromItems e (it # post) = itemWithout e it @ post"
proof (cases it)
  case (Subsection sn es)
  assume "e \<in> set (itemEntries it)"
  with Subsection obtain i where "arrayIndexOf e es = Some i"
    using arrayIndexOf_None_iff [of e es] by auto
  with Subsection show ?thesis
    by (simp add: spliceOut_arrayIndexOf)
next
  case (Entry x)
  assume "e \<in> set (itemEntries it)"
  with Entry show ?thesis by simp
qed

lemma removeEntryFromItems_first:
  "e \<notin> set (itemsEntries pre) \<Longrightarrow> e \<in> set (itemEntries it) \<Longrightarrow>
     removeEntryFromItems e (pre @ it # post) = pre @ itemWithout e it @ post"
proof (induction pre)
  case Nil
  then show ?case by (simp add: removeEntryFromItems_found)
next
  case (Cons p pre)
  from Cons.prems(1) have "e \<notin> set (itemEntries p)" and "e \<notin> set (itemsEntries pre)"
    by (simp_all add: itemsEntries_def)
  with Cons show ?case
    by (cases p) (auto split: option.splits dest: arrayIndexOf_Some_mem)
qed

lemma itemsEntries_removeEntryFromItems:
  "itemsEntries (removeEntryFromItems e items) = remove1 e (itemsEntries items)"
proof (induction items)
  case Nil
  then show ?case by (simp add: itemsEntries_def)
next
  case (Cons it items)
  show ?case
  proof (cases it)
    case (Subsection sn es)
    show ?thesis
    proof (cases "arrayIndexOf e es")
      case None
      then have "e \<notin> set es" by (simp add: arrayIndexOf_None_iff)
      with Cons Subsection None show ?thesis
        by (simp add: itemsEntries_def remove1_append)
    next
      case (Some i)
      then have "spliceOut i es = remove1 e es" and "e \<in> set es"
        using spliceOut_arrayIndexOf [of e es i] by simp_all
      with Subsection Some show ?thesis
        by (simp add: itemsEntries_def remove1_append)
    qed
  next
    case (Entry x)
    with Cons show ?thesis by (simp add: itemsEntries_def)
  qed
qed

text \<open>
  Claim C8. \<^verbatim>\<open>removeEntryFromSection\<close> leaves the section as it is when the entry
  occurs nowhere in it. Otherwise it takes out one occurrence, the first one in the order
  of the scan: with \<open>it\<close> the first item that is the entry or a subsection holding it,
  the items before and after \<open>it\<close> are unchanged, a top-level entry \<open>it\<close> is dropped,
  and a subsection \<open>it\<close> loses the first occurrence of the entry. In terms of the
  entries of the section in scan order, the first occurrence of the entry is removed and
  nothing else changes; the name of the section is unchanged.
\<close>

theorem removeEntryFromSection_first_occurrence:
  "(e \<notin> set (sectionEntries s) \<longrightarrow> removeEntryFromSection s e = s)
   \<and> (\<forall>pre it post.
        orderedItems s = pre @ it # post \<and> e \<notin> set (itemsEntries pre)
          \<and> e \<in> set (itemEntries it)
        \<longrightarrow> removeEntryFromSection s e = s\<lparr>orderedItems := pre @ itemWithout e it @ post\<rparr>)
   \<and> sectionEntries (removeEntryFromSection s e) = remove1 e (sectionEntries s)
   \<and> name (removeEntryFromSection s e) = name s"
proof (intro conjI allI impI)
  assume "e \<notin> set (sectionEntries s)"
  then show "removeEntryFromSection s e = s"
    by (simp add: removeEntryFromSection_def sectionEntries_def removeEntryFromItems_absent)
next
  fix pre it post
  assume "orderedItems s = pre @ it # post \<and> e \<notin> set (itemsEntries pre)
    \<and> e \<in> set (itemEntries it)"
  then show "removeEntryFromSection s e = s\<lparr>orderedItems := pre @ itemWithout e it @ post\<rparr>"
    by (simp add: removeEntryFromSection_def removeEntryFromItems_first)
next
  show "sectionEntries (removeEntryFromSection s e) = remove1 e (sectionEntries s)"
    by (simp add: removeEntryFromSection_def sectionEntries_def
        itemsEntries_removeEntryFromItems)
next
  show "name (removeEntryFromSection s e) = name s"
    by (simp add: removeEntryFromSection_def)
qed

text \<open>
  An instance with entries as references: the entry 7 stands at the top level after a
  subsection that holds it twice, and only its first occurrence in that subsection goes.
\<close>

theorem removeEntryFromSection_first_occurrence_witness:
  "removeEntryFromSection
     \<lparr>name = js ''Active'',
      orderedItems = [Entry 1, Subsection (js ''Growth'') [2, 7, 3, 7], Entry 7]\<rparr> (7::nat)
   = \<lparr>name = js ''Active'',
      orderedItems = [Entry 1, Subsection (js ''Growth'') [2, 3, 7], Entry 7]\<rparr>
   \<and> removeEntryFromSection
       \<lparr>name = js ''Active'', orderedItems = [Entry 1, Subsection (js ''Growth'') [2, 3]]\<rparr> (7::nat)
     = \<lparr>name = js ''Active'', orderedItems = [Entry 1, Subsection (js ''Growth'') [2, 3]]\<rparr>"
proof -
  let ?s = "\<lparr>name = js ''Active'',
      orderedItems = [Entry 1, Subsection (js ''Growth'') [2, 7, 3, 7], Entry (7::nat)]\<rparr>"
  let ?t = "\<lparr>name = js ''Active'', orderedItems = [Entry 1, Subsection (js ''Growth'') [2, 3::nat]]\<rparr>"
  have "orderedItems ?s = [Entry 1] @ Subsection (js ''Growth'') [2, 7, 3, 7] # [Entry 7]
      \<and> 7 \<notin> set (itemsEntries [Entry (1::nat)])
      \<and> 7 \<in> set (itemEntries (Subsection (js ''Growth'') [2, 7, 3, 7::nat]))"
    by (simp add: itemsEntries_def)
  then have "removeEntryFromSection ?s 7
      = ?s\<lparr>orderedItems := [Entry 1] @ itemWithout 7 (Subsection (js ''Growth'') [2, 7, 3, 7]) @ [Entry 7]\<rparr>"
    using removeEntryFromSection_first_occurrence [of 7 ?s] by blast
  moreover have "7 \<notin> set (sectionEntries ?t)"
    by (simp add: sectionEntries_def itemsEntries_def)
  then have "removeEntryFromSection ?t 7 = ?t"
    using removeEntryFromSection_first_occurrence [of 7 ?t] by blast
  ultimately show ?thesis by simp
qed

section \<open>Lines of a text\<close>

lemma splitOn_nonempty: "splitOn sep s \<noteq> []"
  by (induction s) (auto split: list.splits)

lemma splitOn_no_sep: "l \<in> set (splitOn sep s) \<Longrightarrow> sep \<notin> set l"
proof (induction s arbitrary: l)
  case Nil
  then show ?case by simp
next
  case (Cons c cs)
  show ?case
  proof (cases "c = sep")
    case True
    with Cons show ?thesis by auto
  next
    case False
    obtain seg segs where sp: "splitOn sep cs = seg # segs"
      using splitOn_nonempty [of sep cs] by (cases "splitOn sep cs") auto
    with Cons.prems False have "l = c # seg \<or> l \<in> set segs" by simp
    then show ?thesis
    proof
      assume "l = c # seg"
      moreover have "sep \<notin> set seg" using Cons.IH [of seg] sp by simp
      ultimately show ?thesis using False by simp
    next
      assume "l \<in> set segs"
      then show ?thesis using Cons.IH [of l] sp by simp
    qed
  qed
qed

lemma splitOn_no_sep_id: "sep \<notin> set l \<Longrightarrow> splitOn sep l = [l]"
  by (induction l) auto

lemma splitOn_append:
  "splitOn sep (a @ sep # b) = splitOn sep a @ splitOn sep b"
proof (induction a)
  case Nil
  then show ?case by simp
next
  case (Cons c a)
  obtain seg segs where "splitOn sep a = seg # segs"
    using splitOn_nonempty [of sep a] by (cases "splitOn sep a") auto
  with Cons show ?case by simp
qed

lemma joinWith_Cons:
  "ls \<noteq> [] \<Longrightarrow> joinWith sep (l # ls) = l @ sep @ joinWith sep ls"
  by (cases ls) simp_all

lemma joinWith_append:
  "a \<noteq> [] \<Longrightarrow> b \<noteq> [] \<Longrightarrow> joinWith sep (a @ b) = joinWith sep a @ sep @ joinWith sep b"
proof (induction a)
  case Nil
  then show ?case by simp
next
  case (Cons l a)
  show ?case
  proof (cases "a = []")
    case True
    with Cons.prems show ?thesis by (simp add: joinWith_Cons)
  next
    case False
    with Cons show ?thesis by (simp add: joinWith_Cons)
  qed
qed

lemma splitOn_joinWith:
  "ls \<noteq> [] \<Longrightarrow> \<forall>l\<in>set ls. sep \<notin> set l \<Longrightarrow> splitOn sep (joinWith [sep] ls) = ls"
proof (induction ls)
  case Nil
  then show ?case by simp
next
  case (Cons l ls)
  show ?case
  proof (cases "ls = []")
    case True
    with Cons.prems show ?thesis by (simp add: splitOn_no_sep_id)
  next
    case False
    then have "joinWith [sep] (l # ls) = l @ sep # joinWith [sep] ls"
      by (simp add: joinWith_Cons)
    with Cons False show ?thesis
      by (simp add: splitOn_append splitOn_no_sep_id)
  qed
qed

lemma joinWith_splitOn: "joinWith [sep] (splitOn sep s) = s"
proof (induction s)
  case Nil
  then show ?case by simp
next
  case (Cons c cs)
  obtain seg segs where sp: "splitOn sep cs = seg # segs"
    using splitOn_nonempty [of sep cs] by (cases "splitOn sep cs") auto
  show ?case
  proof (cases "c = sep")
    case True
    with Cons sp show ?thesis by simp
  next
    case False
    with Cons sp show ?thesis by (cases segs) auto
  qed
qed

section \<open>The parser and the separator\<close>

lemma parseLines_stop:
  "trim d = js ''---'' \<Longrightarrow> parseLines fm st (pre @ d # post) = parseLines fm st pre"
  by (induction pre arbitrary: st) auto

lemma parseLines_foldl:
  "\<forall>l\<in>set ls. trim l \<noteq> (js ''---'') \<Longrightarrow> parseLines fm st ls = foldl (parseLine fm) st ls"
  by (induction ls arbitrary: st) auto

lemma parseLine_empty: "parseLine fm st [] = st"
  by (simp add: parseLine_def matchHeader_def)

lemma trim_empty: "trim [] = []"
  by (simp add: trim_def trimEnd_def trimStart_def)

lemma parseLines_of_joined:
  assumes "\<forall>l\<in>set ls. LF \<notin> set l"
  shows "parseLines fm st (splitOn LF (joinWith [LF] ls)) = parseLines fm st ls"
proof (cases "ls = []")
  case True
  then show ?thesis by (simp add: trim_empty parseLine_empty)
next
  case False
  with assms show ?thesis by (simp add: splitOn_joinWith)
qed


section \<open>What the parser has read when it stops\<close>

lemma pushItem_snoc:
  "pushItem it (ys @ [y]) = ys @ [y\<lparr>orderedItems := orderedItems y @ [it]\<rparr>]"
  by (simp add: pushItem_def)

lemma pushItem_props:
  assumes "secs \<noteq> []"
  shows "pushItem it secs \<noteq> []"
    and "map name (pushItem it secs) = map name secs"
    and "concat (map sectionEntries (pushItem it secs))
           = concat (map sectionEntries secs) @ itemEntries it"
proof -
  from assms obtain ys y where secs: "secs = ys @ [y]"
    by (cases secs rule: rev_cases) auto
  show "pushItem it secs \<noteq> []"
    unfolding secs by (simp add: pushItem_snoc)
  show "map name (pushItem it secs) = map name secs"
    unfolding secs by (simp add: pushItem_snoc)
  show "concat (map sectionEntries (pushItem it secs))
      = concat (map sectionEntries secs) @ itemEntries it"
    unfolding secs by (simp add: pushItem_snoc sectionEntries_def itemsEntries_def)
qed

lemma sectionNamesOfLines_Cons:
  "sectionNamesOfLines (l # ls)
     = (case matchHeader (js ''## '') l of Some n \<Rightarrow> [n] | None \<Rightarrow> []) @ sectionNamesOfLines ls"
  by (simp add: sectionNamesOfLines_def map_filter_simps split: option.splits)

lemma entryNamesOfLines_Cons:
  "entryNamesOfLines b (l # ls)
     = entryNamesOfLines b [l]
       @ entryNamesOfLines (b \<or> matchHeader (js ''## '') l \<noteq> None) ls"
  by (cases b) (simp_all split: option.splits)

lemma projectName_makeEntry: "projectName (makeEntry fm l pn al) = pn"
  by (simp add: makeEntry_def)

lemma parseLine_section:
  assumes "stateOk st" and "matchHeader (js ''## '') l = Some n"
  shows "stateOk (parseLine fm st l)"
    and "map name (parsedSections (parseLine fm st l)) = map name (parsedSections st) @ [n]"
    and "stateEntries (parseLine fm st l) = stateEntries st"
    and "parsedSections (parseLine fm st l) \<noteq> []"
proof -
  show "stateOk (parseLine fm st l)"
    using assms
    by (auto simp: parseLine_def stateOk_def stateEntries_def openEntries_def
        sectionEntries_def itemsEntries_def pushItem_props split: option.splits)
  show "map name (parsedSections (parseLine fm st l)) = map name (parsedSections st) @ [n]"
    using assms
    by (auto simp: parseLine_def stateOk_def pushItem_props split: option.splits)
  show "stateEntries (parseLine fm st l) = stateEntries st"
    using assms
    by (auto simp: parseLine_def stateOk_def stateEntries_def openEntries_def
        sectionEntries_def itemsEntries_def pushItem_props split: option.splits)
  show "parsedSections (parseLine fm st l) \<noteq> []"
    using assms by (auto simp: parseLine_def split: option.splits)
qed

lemma parseLine_subsection:
  assumes "stateOk st" and "matchHeader (js ''## '') l = None"
    and "matchHeader (js ''### '') l = Some n"
  shows "stateOk (parseLine fm st l)"
    and "map name (parsedSections (parseLine fm st l)) = map name (parsedSections st)"
    and "stateEntries (parseLine fm st l) = stateEntries st"
    and "parsedSections (parseLine fm st l) \<noteq> [] \<longleftrightarrow> parsedSections st \<noteq> []"
proof -
  show "stateOk (parseLine fm st l)"
    using assms
    by (auto simp: parseLine_def stateOk_def stateEntries_def openEntries_def
        pushItem_props split: option.splits)
  show "map name (parsedSections (parseLine fm st l)) = map name (parsedSections st)"
    using assms
    by (auto simp: parseLine_def stateOk_def pushItem_props split: option.splits)
  show "stateEntries (parseLine fm st l) = stateEntries st"
    using assms
    by (auto simp: parseLine_def stateOk_def stateEntries_def openEntries_def
        pushItem_props split: option.splits)
  show "parsedSections (parseLine fm st l) \<noteq> [] \<longleftrightarrow> parsedSections st \<noteq> []"
    using assms
    by (auto simp: parseLine_def stateOk_def pushItem_props split: option.splits)
qed

lemma parseLine_link:
  assumes "stateOk st" and "matchHeader (js ''## '') l = None"
    and "matchHeader (js ''### '') l = None" and "matchLink l = Some (pn, al)"
  shows "stateOk (parseLine fm st l)"
    and "map name (parsedSections (parseLine fm st l)) = map name (parsedSections st)"
    and "map projectName (stateEntries (parseLine fm st l))
           = map projectName (stateEntries st) @ (if parsedSections st \<noteq> [] then [pn] else [])"
    and "parsedSections (parseLine fm st l) \<noteq> [] \<longleftrightarrow> parsedSections st \<noteq> []"
proof -
  show "stateOk (parseLine fm st l)"
    using assms
    by (auto simp: parseLine_def Let_def stateOk_def stateEntries_def openEntries_def
        pushItem_props projectName_makeEntry split: option.splits)
  show "map name (parsedSections (parseLine fm st l)) = map name (parsedSections st)"
    using assms
    by (auto simp: parseLine_def Let_def stateOk_def pushItem_props split: option.splits)
  show "map projectName (stateEntries (parseLine fm st l))
      = map projectName (stateEntries st) @ (if parsedSections st \<noteq> [] then [pn] else [])"
    using assms
    by (auto simp: parseLine_def Let_def stateOk_def stateEntries_def openEntries_def
        pushItem_props projectName_makeEntry split: option.splits)
  show "parsedSections (parseLine fm st l) \<noteq> [] \<longleftrightarrow> parsedSections st \<noteq> []"
    using assms
    by (auto simp: parseLine_def Let_def stateOk_def pushItem_props split: option.splits)
qed

lemma parseLine_other:
  assumes "matchHeader (js ''## '') l = None"
    and "matchHeader (js ''### '') l = None" and "matchLink l = None"
  shows "parseLine fm st l = st"
  using assms by (simp add: parseLine_def)

lemma parseLine_step:
  assumes "stateOk st"
  shows "stateOk (parseLine fm st l)"
    and "map name (parsedSections (parseLine fm st l))
           = map name (parsedSections st) @ sectionNamesOfLines [l]"
    and "map projectName (stateEntries (parseLine fm st l))
           = map projectName (stateEntries st) @ entryNamesOfLines (parsedSections st \<noteq> []) [l]"
    and "parsedSections (parseLine fm st l) \<noteq> []
           \<longleftrightarrow> (parsedSections st \<noteq> [] \<or> matchHeader (js ''## '') l \<noteq> None)"
proof -
  consider (sec) n where "matchHeader (js ''## '') l = Some n"
    | (sub) n where "matchHeader (js ''## '') l = None" "matchHeader (js ''### '') l = Some n"
    | (link) pn al where "matchHeader (js ''## '') l = None" "matchHeader (js ''### '') l = None"
        "matchLink l = Some (pn, al)"
    | (other) "matchHeader (js ''## '') l = None" "matchHeader (js ''### '') l = None"
        "matchLink l = None"
    by (cases "matchHeader (js ''## '') l"; cases "matchHeader (js ''### '') l";
        cases "matchLink l") auto
  then have "stateOk (parseLine fm st l)
    \<and> map name (parsedSections (parseLine fm st l))
           = map name (parsedSections st) @ sectionNamesOfLines [l]
    \<and> map projectName (stateEntries (parseLine fm st l))
           = map projectName (stateEntries st) @ entryNamesOfLines (parsedSections st \<noteq> []) [l]
    \<and> (parsedSections (parseLine fm st l) \<noteq> []
           \<longleftrightarrow> (parsedSections st \<noteq> [] \<or> matchHeader (js ''## '') l \<noteq> None))"
  proof cases
    case sec
    with parseLine_section [OF assms sec, of fm] show ?thesis
      by (simp add: sectionNamesOfLines_Cons sectionNamesOfLines_def)
  next
    case sub
    with parseLine_subsection [OF assms sub, of fm] show ?thesis
      by (simp add: sectionNamesOfLines_Cons sectionNamesOfLines_def)
  next
    case link
    with parseLine_link [OF assms link, of fm] show ?thesis
      by (simp add: sectionNamesOfLines_Cons sectionNamesOfLines_def)
  next
    case other
    with assms show ?thesis
      by (simp add: parseLine_other sectionNamesOfLines_Cons sectionNamesOfLines_def)
  qed
  then show "stateOk (parseLine fm st l)"
    and "map name (parsedSections (parseLine fm st l))
           = map name (parsedSections st) @ sectionNamesOfLines [l]"
    and "map projectName (stateEntries (parseLine fm st l))
           = map projectName (stateEntries st) @ entryNamesOfLines (parsedSections st \<noteq> []) [l]"
    and "parsedSections (parseLine fm st l) \<noteq> []
           \<longleftrightarrow> (parsedSections st \<noteq> [] \<or> matchHeader (js ''## '') l \<noteq> None)"
    by simp_all
qed

lemma sectionNamesOfLines_split:
  "sectionNamesOfLines (l # ls) = sectionNamesOfLines [l] @ sectionNamesOfLines ls"
  by (simp add: sectionNamesOfLines_def map_filter_simps split: option.splits)

lemma foldl_parseLine:
  assumes "stateOk st"
  shows "stateOk (foldl (parseLine fm) st ls)
    \<and> map name (parsedSections (foldl (parseLine fm) st ls))
         = map name (parsedSections st) @ sectionNamesOfLines ls
    \<and> map projectName (stateEntries (foldl (parseLine fm) st ls))
         = map projectName (stateEntries st) @ entryNamesOfLines (parsedSections st \<noteq> []) ls"
  using assms
proof (induction ls arbitrary: st)
  case Nil
  then show ?case by (simp add: sectionNamesOfLines_def map_filter_simps)
next
  case (Cons l ls)
  note step = parseLine_step [OF Cons.prems, of fm l]
  note ih = Cons.IH [OF step(1)]
  have e: "entryNamesOfLines (parsedSections st \<noteq> []) (l # ls)
      = entryNamesOfLines (parsedSections st \<noteq> []) [l]
        @ entryNamesOfLines (parsedSections (parseLine fm st l) \<noteq> []) ls"
    unfolding step(4) by (rule entryNamesOfLines_Cons)
  have s: "sectionNamesOfLines (l # ls) = sectionNamesOfLines [l] @ sectionNamesOfLines ls"
    by (rule sectionNamesOfLines_split)
  from ih show ?case
    unfolding e s by (simp add: step(2) step(3))
qed

lemma stateOk_initial: "stateOk initialParseState"
  by (simp add: stateOk_def initialParseState_def stateEntries_def openEntries_def)

lemma finishParse_read:
  assumes "stateOk st"
  shows "map name (sections (finishParse tagged st)) = map name (parsedSections st)"
    and "map projectName (documentEntries (finishParse tagged st))
           = map projectName (stateEntries st)"
    and "unlisted (finishParse tagged st)
           = filter (\<lambda>p. p \<notin> set (map projectName (stateEntries st))) tagged"
proof -
  show "map name (sections (finishParse tagged st)) = map name (parsedSections st)"
    using assms
    by (auto simp: finishParse_def stateOk_def pushItem_props split: option.splits)
  show "map projectName (documentEntries (finishParse tagged st))
      = map projectName (stateEntries st)"
    using assms
    by (auto simp: finishParse_def stateOk_def documentEntries_def stateEntries_def
        openEntries_def pushItem_props split: option.splits)
  have "foundProjectNames st = map projectName (stateEntries st)"
    using assms by (simp add: stateOk_def)
  then show "unlisted (finishParse tagged st)
      = filter (\<lambda>p. p \<notin> set (map projectName (stateEntries st))) tagged"
    by (simp add: finishParse_def)
qed

lemma parse_lines_read:
  "map name (sections (finishParse tagged (foldl (parseLine fm) initialParseState ls)))
     = sectionNamesOfLines ls
   \<and> map projectName
       (documentEntries (finishParse tagged (foldl (parseLine fm) initialParseState ls)))
     = entryNamesOfLines False ls
   \<and> unlisted (finishParse tagged (foldl (parseLine fm) initialParseState ls))
     = filter (\<lambda>p. p \<notin> set (entryNamesOfLines False ls)) tagged"
proof -
  note f = foldl_parseLine [OF stateOk_initial, of fm ls]
  note r = finishParse_read [OF conjunct1 [OF f], of tagged]
  have i: "parsedSections initialParseState = []" "stateEntries initialParseState = []"
    by (simp_all add: initialParseState_def stateEntries_def openEntries_def)
  from f r show ?thesis by (simp add: i)
qed

text \<open>
  Claim C7. The parser stops at the separator line, a line that is \<^verbatim>\<open>---\<close> once the
  white space around it is trimmed (so, in particular, at a line that is \<^verbatim>\<open>---\<close>
  itself). When the lines of the text are \<open>pre\<close>, a separator line \<open>d\<close> and \<open>post\<close>,
  the parsed document is the one parsed from the lines \<open>pre\<close> alone: nothing in it
  comes from the separator line or from a later line. When \<open>d\<close> is the first separator
  line, the document is the result of the loop body run on every line of \<open>pre\<close> in
  turn, and everything of \<open>pre\<close> is in it: its sections are the section headers of
  \<open>pre\<close> in their order, its entries, those of a subsection still open at the separator
  among them, are the linking lines of \<open>pre\<close> below a section header in their order,
  and the unlisted projects are the tagged projects that no such line names.
\<close>

theorem parsePrioritiesContent_stops_at_separator:
  assumes "splitOn LF content = pre @ d # post" and "trim d = js ''---''"
  shows "parsePrioritiesContent fm tagged content
           = parsePrioritiesContent fm tagged (joinWith [LF] pre)
         \<and> ((\<forall>l\<in>set pre. trim l \<noteq> js ''---'') \<longrightarrow>
              parsePrioritiesContent fm tagged content
                = finishParse tagged (foldl (parseLine fm) initialParseState pre)
              \<and> map name (sections (parsePrioritiesContent fm tagged content))
                  = sectionNamesOfLines pre
              \<and> map projectName (documentEntries (parsePrioritiesContent fm tagged content))
                  = entryNamesOfLines False pre
              \<and> unlisted (parsePrioritiesContent fm tagged content)
                  = filter (\<lambda>p. p \<notin> set (entryNamesOfLines False pre)) tagged)"
proof -
  have nolf: "\<forall>l\<in>set pre. LF \<notin> set l"
  proof
    fix l
    assume "l \<in> set pre"
    with assms(1) have "l \<in> set (splitOn LF content)" by simp
    then show "LF \<notin> set l" by (rule splitOn_no_sep)
  qed
  have stop: "parseLines fm initialParseState (splitOn LF content)
      = parseLines fm initialParseState pre"
    using assms by (simp add: parseLines_stop)
  have joined: "parsePrioritiesContent fm tagged (joinWith [LF] pre)
      = finishParse tagged (parseLines fm initialParseState pre)"
    using nolf by (simp add: parsePrioritiesContent_def parseLines_of_joined)
  have whole: "parsePrioritiesContent fm tagged content
      = finishParse tagged (parseLines fm initialParseState pre)"
    using stop by (simp add: parsePrioritiesContent_def)
  show ?thesis
  proof (intro conjI impI)
    show "parsePrioritiesContent fm tagged content
        = parsePrioritiesContent fm tagged (joinWith [LF] pre)"
      using whole joined by simp
  next
    assume first: "\<forall>l\<in>set pre. trim l \<noteq> js ''---''"
    then show run: "parsePrioritiesContent fm tagged content
        = finishParse tagged (foldl (parseLine fm) initialParseState pre)"
      using whole by (simp add: parseLines_foldl)
    show "map name (sections (parsePrioritiesContent fm tagged content))
        = sectionNamesOfLines pre"
      unfolding run using parse_lines_read [of tagged fm pre] by simp
    show "map projectName (documentEntries (parsePrioritiesContent fm tagged content))
        = entryNamesOfLines False pre"
      unfolding run using parse_lines_read [of tagged fm pre] by simp
    show "unlisted (parsePrioritiesContent fm tagged content)
        = filter (\<lambda>p. p \<notin> set (entryNamesOfLines False pre)) tagged"
      unfolding run using parse_lines_read [of tagged fm pre] by simp
  qed
qed

theorem parsePrioritiesContent_stops_at_separator_witness:
  "parsePrioritiesContent (\<lambda>p. None) [js ''Beta'', js ''Alpha'']
     (js ''## Active'' @ [LF] @ js ''### Growth'' @ [LF] @ js ''- x [[Alpha]]'' @ [LF]
        @ [0xA0] @ js ''---'' @ [LF] @ js ''## On Hold'' @ [LF] @ js ''- [[Beta|B]]'')
   = \<lparr>sections =
        [\<lparr>name = js ''Active'',
          orderedItems =
            [Subsection (js ''Growth'')
               [\<lparr>projectName = js ''Alpha'', emoji = js ''x'', alias' = None\<rparr>]]\<rparr>],
      unlisted = [js ''Beta'']\<rparr>"
proof -
  let ?content = "js ''## Active'' @ [LF] @ js ''### Growth'' @ [LF] @ js ''- x [[Alpha]]'' @ [LF]
    @ [0xA0] @ js ''---'' @ [LF] @ js ''## On Hold'' @ [LF] @ js ''- [[Beta|B]]''"
  let ?pre = "[js ''## Active'', js ''### Growth'', js ''- x [[Alpha]]'']"
  have s: "splitOn LF ?content
      = ?pre @ (0xA0 # js ''---'') # [js ''## On Hold'', js ''- [[Beta|B]]'']"
    by code_simp
  have t: "trim (0xA0 # js ''---'') = js ''---''"
    by code_simp
  have p: "parsePrioritiesContent (\<lambda>p. None) [js ''Beta'', js ''Alpha''] (joinWith [LF] ?pre)
      = \<lparr>sections =
          [\<lparr>name = js ''Active'',
            orderedItems =
              [Subsection (js ''Growth'')
                 [\<lparr>projectName = js ''Alpha'', emoji = js ''x'', alias' = None\<rparr>]]\<rparr>],
         unlisted = [js ''Beta'']\<rparr>"
    by code_simp
  show ?thesis
    using parsePrioritiesContent_stops_at_separator
      [OF s t, of "\<lambda>p. None" "[js ''Beta'', js ''Alpha'']"] p
    by simp
qed
section \<open>Moving an entry to a subsection\<close>










lemma placedAs_total: "\<exists>items'. placedAs targetGroup e items items'"
proof (cases "targetGroup = None \<or> targetGroup = Some []")
  case True
  let ?x = "takeWhile (\<lambda>i. \<not> isSubsection i) items"
  let ?y = "dropWhile (\<lambda>i. \<not> isSubsection i) items"
  have x: "\<forall>i\<in>set ?x. \<not> isSubsection i"
    by (auto dest: set_takeWhileD)
  have y: "?y = [] \<or> isSubsection (hd ?y)"
    using hd_dropWhile [of "\<lambda>i. \<not> isSubsection i" items] by auto
  from True x y have "placedAs targetGroup e (?x @ ?y) (?x @ Entry e # ?y)"
    by (rule placedAs.ungrouped)
  then have "placedAs targetGroup e items (?x @ Entry e # ?y)"
    by simp
  then show ?thesis ..
next
  case False
  then obtain g where g: "targetGroup = Some g" and gne: "g \<noteq> []"
    by (cases targetGroup) auto
  let ?x = "takeWhile (\<lambda>i. \<not> isSubsectionNamed g i) items"
  let ?y = "dropWhile (\<lambda>i. \<not> isSubsectionNamed g i) items"
  have x: "\<forall>i\<in>set ?x. \<not> isSubsectionNamed g i"
    by (auto dest: set_takeWhileD)
  show ?thesis
  proof (cases ?y)
    case Nil
    then have "\<forall>i\<in>set items. \<not> isSubsectionNamed g i"
      by (simp add: dropWhile_eq_Nil_conv)
    with gne have "placedAs (Some g) e items (items @ [Entry e])"
      by (rule placedAs.fallback)
    then show ?thesis unfolding g ..
  next
    case (Cons h t)
    have "isSubsectionNamed g (hd ?y)"
      using hd_dropWhile [of "\<lambda>i. \<not> isSubsectionNamed g i" items] Cons by simp
    then have "isSubsectionNamed g h" unfolding Cons by simp
    then obtain es where h: "h = Subsection g es" by (cases h) auto
    have split: "items = ?x @ Subsection g es # t"
      using takeWhile_dropWhile_id [of "\<lambda>i. \<not> isSubsectionNamed g i" items]
      unfolding Cons h by simp
    from gne x
    have "placedAs (Some g) e (?x @ Subsection g es # t) (?x @ Subsection g (es @ [e]) # t)"
      by (rule placedAs.into_group)
    then have "placedAs (Some g) e items (?x @ Subsection g (es @ [e]) # t)"
      using split by simp
    then show ?thesis unfolding g ..
  qed
qed



section \<open>The writer and the parser disagree on the separator\<close>

text \<open>
  Claim C1 on a concrete text. The fourth line, four dashes, is no separator for the
  parser, which stops only at a line that is \<^verbatim>\<open>---\<close> once trimmed, so both sections are
  parsed. The writer takes everything from the first line feed followed by three dashes
  for the suffix to keep, so the section behind the dashes is written twice, once rebuilt
  and once inside the suffix, and parsing the written text gives three sections.
\<close>

theorem round_trip_duplicates_section_behind_dashes:
  "sections (parsePrioritiesContent (\<lambda>p. None) []
      (js ''## Active\<newline>- [[Alpha]]\<newline>----\<newline>## On Hold\<newline>- [[Beta]]''))
   = [\<lparr>name = js ''Active'',
       orderedItems = [Entry \<lparr>projectName = js ''Alpha'', emoji = [], alias' = None\<rparr>]\<rparr>,
      \<lparr>name = js ''On Hold'',
       orderedItems = [Entry \<lparr>projectName = js ''Beta'', emoji = [], alias' = None\<rparr>]\<rparr>]
   \<and> writePrioritiesContent
       (parsePrioritiesContent (\<lambda>p. None) []
          (js ''## Active\<newline>- [[Alpha]]\<newline>----\<newline>## On Hold\<newline>- [[Beta]]''))
       (js ''## Active\<newline>- [[Alpha]]\<newline>----\<newline>## On Hold\<newline>- [[Beta]]'')
     = js ''## Active\<newline>- [[Alpha]]\<newline>\<newline>## On Hold\<newline>- [[Beta]]\<newline>\<newline>----\<newline>## On Hold\<newline>- [[Beta]]''
   \<and> sections (parsePrioritiesContent (\<lambda>p. None) []
       (writePrioritiesContent
          (parsePrioritiesContent (\<lambda>p. None) []
             (js ''## Active\<newline>- [[Alpha]]\<newline>----\<newline>## On Hold\<newline>- [[Beta]]''))
          (js ''## Active\<newline>- [[Alpha]]\<newline>----\<newline>## On Hold\<newline>- [[Beta]]'')))
     = [\<lparr>name = js ''Active'',
         orderedItems = [Entry \<lparr>projectName = js ''Alpha'', emoji = [], alias' = None\<rparr>]\<rparr>,
        \<lparr>name = js ''On Hold'',
         orderedItems = [Entry \<lparr>projectName = js ''Beta'', emoji = [], alias' = None\<rparr>]\<rparr>,
        \<lparr>name = js ''On Hold'',
         orderedItems = [Entry \<lparr>projectName = js ''Beta'', emoji = [], alias' = None\<rparr>]\<rparr>]
   \<and> parsePrioritiesContent (\<lambda>p. None) []
       (writePrioritiesContent
          (parsePrioritiesContent (\<lambda>p. None) []
             (js ''## Active\<newline>- [[Alpha]]\<newline>----\<newline>## On Hold\<newline>- [[Beta]]''))
          (js ''## Active\<newline>- [[Alpha]]\<newline>----\<newline>## On Hold\<newline>- [[Beta]]''))
     \<noteq> parsePrioritiesContent (\<lambda>p. None) []
         (js ''## Active\<newline>- [[Alpha]]\<newline>----\<newline>## On Hold\<newline>- [[Beta]]'')"
  by code_simp

section \<open>Synchronising a status with the text\<close>

text \<open>
  Claim C3 on a concrete text. The file has no section On Hold and no \<^verbatim>\<open>---\<close>, and the
  project Alpha is not listed. \<^verbatim>\<open>moveProjectInPriorities\<close> hands over to
  \<^verbatim>\<open>addToPriorities\<close>, which creates a missing section only in front of a \<^verbatim>\<open>---\<close>: the
  text stays as it is, and the project is in no section. (With the project listed,
  \<^verbatim>\<open>moveProjectInPriorities\<close> itself appends the missing section at the end of the
  text.)
\<close>

theorem syncStatus_leaves_unlisted_project_out:
  "syncProjectStatusToPriorities (js ''Alpha'') (js ''on-hold'') (Some (js ''## Active\<newline>- [[Beta]]\<newline>''))
   = Returns (Some (js ''## Active\<newline>- [[Beta]]\<newline>''))
   \<and> sections (parsePrioritiesContent (\<lambda>p. None) [] (js ''## Active\<newline>- [[Beta]]\<newline>''))
     = [\<lparr>name = js ''Active'',
         orderedItems = [Entry \<lparr>projectName = js ''Beta'', emoji = [], alias' = None\<rparr>]\<rparr>]
   \<and> (js ''Alpha'') \<notin> set (map projectName (concat (map sectionEntries
       (sections (parsePrioritiesContent (\<lambda>p. None) [] (js ''## Active\<newline>- [[Beta]]\<newline>''))))))
   \<and> syncProjectStatusToPriorities (js ''Beta'') (js ''on-hold'') (Some (js ''## Active\<newline>- [[Beta]]\<newline>''))
     = Returns (Some (js ''## Active\<newline>\<newline>\<newline>## On Hold\<newline>- [[Beta]]\<newline>''))"
  by code_simp

text \<open>
  The part of the status table without a section: a status that is neither
  \<^verbatim>\<open>complete\<close>, nor one of the four statuses of the table, nor the name of a member
  that the table inherits, leaves the file as it is.
\<close>

lemma syncProjectStatusToPriorities_other_status:
  "newStatus \<noteq> js ''complete'' \<Longrightarrow> getStatusSection newStatus = NoSection \<Longrightarrow>
     syncProjectStatusToPriorities pn newStatus file = Returns file"
  by (simp add: syncProjectStatusToPriorities_def)

text \<open>
  A status that is the name of an inherited member: with the project listed the call
  throws before it writes, and a status outside of the table and of the inherited members
  returns with the file as it is.
\<close>

lemma syncProjectStatusToPriorities_inherited_member:
  "getStatusSection (js ''constructor'') = InheritedMember
   \<and> syncProjectStatusToPriorities (js ''Alpha'') (js ''constructor'')
       (Some (js ''## Active\<newline>- [[Alpha]]\<newline>'')) = ThrowsTypeError
   \<and> syncProjectStatusToPriorities (js ''Alpha'') (js ''constructor'')
       (Some (js ''## Active\<newline>- [[Beta]]\<newline>'')) = HostDependent
   \<and> getStatusSection (js ''paused'') = NoSection
   \<and> syncProjectStatusToPriorities (js ''Alpha'') (js ''paused'')
       (Some (js ''## Active\<newline>- [[Alpha]]\<newline>''))
     = Returns (Some (js ''## Active\<newline>- [[Alpha]]\<newline>''))"
  by code_simp

text \<open>
  Claim C6 on a concrete text. The file ends with a line of four dashes. The section On
  Hold is missing, so it is created in front of the last \<^verbatim>\<open>---\<close> of the text, which
  starts at the second dash of that line: the header lands behind a dash, in the middle
  of a line, and the parsed document still has Alpha in Active. The second run finds no
  header of On Hold at the start of a line and creates the section again, now in front of
  the three dashes that are left, and Alpha is in On Hold.
\<close>

theorem syncStatus_twice_differs_from_once:
  "syncProjectStatusToPriorities (js ''Alpha'') (js ''on-hold'')
     (Some (js ''## Active\<newline>- [[Alpha]]\<newline>----\<newline>''))
   = Returns (Some (js ''## Active\<newline>\<newline>-## On Hold\<newline>- [[Alpha]]\<newline>\<newline>---\<newline>''))
   \<and> syncProjectStatusToPriorities (js ''Alpha'') (js ''on-hold'')
       (Some (js ''## Active\<newline>\<newline>-## On Hold\<newline>- [[Alpha]]\<newline>\<newline>---\<newline>''))
     = Returns (Some (js ''## Active\<newline>\<newline>-## On Hold\<newline>\<newline>## On Hold\<newline>- [[Alpha]]\<newline>\<newline>---\<newline>''))
   \<and> sections (parsePrioritiesContent (\<lambda>p. None) []
       (js ''## Active\<newline>\<newline>-## On Hold\<newline>- [[Alpha]]\<newline>\<newline>---\<newline>''))
     = [\<lparr>name = js ''Active'',
         orderedItems = [Entry \<lparr>projectName = js ''Alpha'', emoji = [], alias' = None\<rparr>]\<rparr>]
   \<and> sections (parsePrioritiesContent (\<lambda>p. None) []
       (js ''## Active\<newline>\<newline>-## On Hold\<newline>\<newline>## On Hold\<newline>- [[Alpha]]\<newline>\<newline>---\<newline>''))
     = [\<lparr>name = js ''Active'', orderedItems = []\<rparr>,
        \<lparr>name = js ''On Hold'',
         orderedItems = [Entry \<lparr>projectName = js ''Alpha'', emoji = [], alias' = None\<rparr>]\<rparr>]
   \<and> js ''## Active\<newline>\<newline>-## On Hold\<newline>\<newline>## On Hold\<newline>- [[Alpha]]\<newline>\<newline>---\<newline>''
     \<noteq> js ''## Active\<newline>\<newline>-## On Hold\<newline>- [[Alpha]]\<newline>\<newline>---\<newline>''
   \<and> parsePrioritiesContent (\<lambda>p. None) []
       (js ''## Active\<newline>\<newline>-## On Hold\<newline>\<newline>## On Hold\<newline>- [[Alpha]]\<newline>\<newline>---\<newline>'')
     \<noteq> parsePrioritiesContent (\<lambda>p. None) []
         (js ''## Active\<newline>\<newline>-## On Hold\<newline>- [[Alpha]]\<newline>\<newline>---\<newline>'')"
  by code_simp

section \<open>The trailing region\<close>

text \<open>
  Claim C2 on a concrete text. The third line is the three dashes behind a space: once
  trimmed it is \<^verbatim>\<open>---\<close>, so the parser stops there and the trailing region is that
  line and the notes behind it. The writer looks for a line feed followed at once by
  three dashes, finds none and keeps no suffix: the document as it was parsed, with no
  edit at all, is written back without the separator line and without the notes.
\<close>

theorem writePrioritiesContent_drops_trailing_region:
  "parsePrioritiesContent (\<lambda>p. None) []
     (js ''## Active\<newline>- [[Alpha]]\<newline> ---\<newline>my notes'')
   = \<lparr>sections =
        [\<lparr>name = js ''Active'',
          orderedItems = [Entry \<lparr>projectName = js ''Alpha'', emoji = [], alias' = None\<rparr>]\<rparr>],
      unlisted = []\<rparr>
   \<and> trailingRegion (js ''## Active\<newline>- [[Alpha]]\<newline> ---\<newline>my notes'')
     = js '' ---\<newline>my notes''
   \<and> writePrioritiesContent
       (parsePrioritiesContent (\<lambda>p. None) []
          (js ''## Active\<newline>- [[Alpha]]\<newline> ---\<newline>my notes''))
       (js ''## Active\<newline>- [[Alpha]]\<newline> ---\<newline>my notes'')
     = js ''## Active\<newline>- [[Alpha]]\<newline>''
   \<and> trailingRegion
       (writePrioritiesContent
          (parsePrioritiesContent (\<lambda>p. None) []
             (js ''## Active\<newline>- [[Alpha]]\<newline> ---\<newline>my notes''))
          (js ''## Active\<newline>- [[Alpha]]\<newline> ---\<newline>my notes''))
     = []
   \<and> trailingRegion
       (writePrioritiesContent
          (parsePrioritiesContent (\<lambda>p. None) []
             (js ''## Active\<newline>- [[Alpha]]\<newline> ---\<newline>my notes''))
          (js ''## Active\<newline>- [[Alpha]]\<newline> ---\<newline>my notes''))
     \<noteq> trailingRegion (js ''## Active\<newline>- [[Alpha]]\<newline> ---\<newline>my notes'')"
  by code_simp

text \<open>
  The write paths that edit the text take no account of the separator either:
  \<^verbatim>\<open>removeFromPriorities\<close> removes every line with a link to the project, also behind
  the separator.
\<close>

lemma removeFromPriorities_removes_line_behind_separator:
  "trailingRegion (js ''## Active\<newline>- [[Alpha]]\<newline>---\<newline>see [[Alpha]] for notes'')
   = js ''---\<newline>see [[Alpha]] for notes''
   \<and> removeFromPriorities (js ''Alpha'')
       (Some (js ''## Active\<newline>- [[Alpha]]\<newline>---\<newline>see [[Alpha]] for notes''))
     = Some (js ''## Active\<newline>\<newline>---\<newline>'')
   \<and> trailingRegion (js ''## Active\<newline>\<newline>---\<newline>'') = js ''---\<newline>''"
  by code_simp
lemma indexOf_prefix: "prefix pat s \<Longrightarrow> indexOf pat s = Some 0"
  by (cases s) auto

lemma indexOf_first:
  "s = a @ pat @ b \<Longrightarrow> \<exists>i. indexOf pat s = Some i \<and> i \<le> length a"
proof (induction a arbitrary: s)
  case Nil
  then have "prefix pat s" by simp
  then show ?case by (simp add: indexOf_prefix)
next
  case (Cons c a)
  obtain i where i: "indexOf pat (a @ pat @ b) = Some i" "i \<le> length a"
    using Cons.IH [of "a @ pat @ b"] by auto
  with Cons.prems show ?case by auto
qed

lemma indexOf_Some_prefix:
  "indexOf pat s = Some i \<Longrightarrow> prefix pat (drop i s)"
proof (induction s arbitrary: i)
  case Nil
  then show ?case by (auto split: if_splits)
next
  case (Cons c cs)
  show ?case
  proof (cases "prefix pat (c # cs)")
    case True
    with Cons.prems show ?thesis by simp
  next
    case False
    with Cons.prems obtain j where "indexOf pat cs = Some j" "i = Suc j" by auto
    with Cons.IH show ?thesis by simp
  qed
qed

lemma trimEnd_Cons:
  "trimEnd (c # s) =
     (if list_all isWhiteSpace s then (if isWhiteSpace c then [] else [c]) else c # trimEnd s)"
  by (auto simp: trimEnd_def dropWhile_append list_all_iff)

lemma trim_hash: "trim (ch (CHR ''#'') # s) \<noteq> (js ''---'')"
  by (simp add: trim_def trimStart_def trimEnd_Cons isWhiteSpace_def isLineTerminator_def
      js_def ch_def)

lemma trim_dash_space: "trim (js ''- '' @ s) \<noteq> (js ''---'')"
  by (simp add: trim_def trimStart_def trimEnd_Cons isWhiteSpace_def isLineTerminator_def
      js_def ch_def)

lemma sectionLines_no_separator:
  "l \<in> set (sectionLines section) \<Longrightarrow> trim l \<noteq> (js ''---'')"
proof -
  assume "l \<in> set (sectionLines section)"
  then consider "l = js ''## '' @ name section" | "l = []"
    | it where "it \<in> set (orderedItems section)" "l \<in> set (itemLines it)"
    by (auto simp: sectionLines_def)
  then show ?thesis
  proof cases
    case 1
    then show ?thesis using trim_hash by (simp add: js_def ch_def)
  next
    case 2
    then show ?thesis by (simp add: trim_empty js_def)
  next
    case 3
    show ?thesis
    proof (cases it)
      case (Subsection sn es)
      with 3(2) have "l = js ''### '' @ sn \<or> (\<exists>e. l = formatPriorityEntry e)" by auto
      then show ?thesis
      proof
        assume "l = js ''### '' @ sn"
        then show ?thesis using trim_hash by (simp add: js_def ch_def)
      next
        assume "\<exists>e. l = formatPriorityEntry e"
        then obtain e where "l = formatPriorityEntry e" ..
        then obtain w where "l = js ''- '' @ w"
          by (simp add: formatPriorityEntry_def Let_def)
        then show ?thesis using trim_dash_space by simp
      qed
    next
      case (Entry e)
      with 3(2) have "l = formatPriorityEntry e" by simp
      then obtain w where "l = js ''- '' @ w"
        by (simp add: formatPriorityEntry_def Let_def)
      then show ?thesis using trim_dash_space by simp
    qed
  qed
qed

lemma rebuilt_lines_no_separator:
  assumes "\<forall>l\<in>set (concat (map sectionLines secs)). LF \<notin> set l"
  shows "\<forall>l\<in>set (splitOn LF (joinWith [LF] (concat (map sectionLines secs)))). trim l \<noteq> (js ''---'')"
proof (cases "concat (map sectionLines secs) = []")
  case True
  show ?thesis unfolding True by (simp add: trim_empty js_def)
next
  case False
  with assms have "splitOn LF (joinWith [LF] (concat (map sectionLines secs)))
      = concat (map sectionLines secs)"
    by (simp add: splitOn_joinWith)
  then show ?thesis
    using sectionLines_no_separator by auto
qed

text \<open>
  The text that \<^verbatim>\<open>writePrioritiesFile\<close> puts in front of the lines \<open>tr\<close>, which start
  with a line that begins with three dashes and come after the lines \<open>pre\<close>: the rebuilt
  sections and, when an earlier line begins with three dashes, the lines from that one on.
\<close>

lemma write_keeps_lines:
  assumes lines: "splitOn LF content = pre @ tr"
    and pre: "pre \<noteq> []"
    and tr: "tr \<noteq> []"
    and dashes: "prefix (js ''---'') (hd tr)"
  shows "\<exists>body. writePrioritiesContent data content = body @ LF # joinWith [LF] tr
      \<and> (body = joinWith [LF] (concat (map sectionLines (sections data)))
          \<or> (\<exists>z. body = joinWith [LF] (concat (map sectionLines (sections data))) @ LF # z
                \<and> set (splitOn LF z) \<subseteq> set pre))"
proof -
  define A where "A = joinWith [LF] pre"
  define T where "T = joinWith [LF] tr"
  define R where "R = joinWith [LF] (concat (map sectionLines (sections data)))"
  have nolf: "\<forall>l\<in>set pre. LF \<notin> set l"
    using splitOn_no_sep [of _ LF content] lines by auto
  have "content = joinWith [LF] (splitOn LF content)"
    by (simp add: joinWith_splitOn)
  then have content: "content = A @ LF # T"
    using lines pre tr by (simp add: joinWith_append A_def T_def)
  obtain d post where dpost: "tr = d # post" using tr by (cases tr) auto
  have "prefix d T"
    unfolding T_def dpost by (cases post) simp_all
  moreover from dashes dpost have "prefix (js ''---'') d" by simp
  ultimately have "prefix (js ''---'') T"
    using prefix_order.trans by blast
  then obtain t where t: "T = js ''---'' @ t" by (auto simp: prefix_def)
  have "content = A @ (LF # (js ''---'')) @ t"
    unfolding content t by simp
  then obtain i where i: "indexOf (LF # (js ''---'')) content = Some i" and ile: "i \<le> length A"
    using indexOf_first by blast
  have out: "writePrioritiesContent data content = (R @ drop i A) @ LF # T"
    using i ile by (simp add: writePrioritiesContent_def R_def content)
  show ?thesis
  proof (cases "drop i A")
    case Nil
    with out show ?thesis unfolding R_def T_def by auto
  next
    case (Cons c z)
    have "prefix (LF # (js ''---'')) (drop i content)"
      using i by (rule indexOf_Some_prefix)
    moreover have "drop i content = c # z @ LF # T"
      using ile Cons by (simp add: content)
    ultimately have c: "c = LF" by simp
    have "A = take i A @ LF # z"
      using Cons c append_take_drop_id [of i A] by simp
    then have "splitOn LF A = splitOn LF (take i A) @ splitOn LF z"
      using splitOn_append [of LF "take i A" z] by simp
    moreover have "splitOn LF A = pre"
      unfolding A_def using pre nolf by (simp add: splitOn_joinWith)
    ultimately have "set (splitOn LF z) \<subseteq> set pre" by auto
    with out Cons c show ?thesis unfolding R_def T_def by auto
  qed
qed

text \<open>
  Where the writer and the parser agree on the separator, the region is kept. Let the
  text have a separator line, the first line that is \<^verbatim>\<open>---\<close> once trimmed, let that
  line begin with the three dashes and not be the first line of the text, and let no
  rebuilt line contain a line feed. Then the trailing region, everything from the
  separator line on, is the same in the text that \<^verbatim>\<open>writePrioritiesFile\<close> writes as in
  the text it read, whatever the document is.
\<close>

lemma writePrioritiesContent_keeps_region_behind_plain_separator:
  assumes "trailingLines content \<noteq> []"
    and "trailingLines content \<noteq> splitOn LF content"
    and "prefix (js ''---'') (hd (trailingLines content))"
    and "\<forall>l\<in>set (concat (map sectionLines (sections data))). LF \<notin> set l"
  shows "trailingRegion (writePrioritiesContent data content) = trailingRegion content"
proof -
  define nd where "nd = (\<lambda>l. trim l \<noteq> (js ''---''))"
  define pre where "pre = takeWhile nd (splitOn LF content)"
  define tr where "tr = trailingLines content"
  define R where "R = joinWith [LF] (concat (map sectionLines (sections data)))"
  have tr_eq: "tr = dropWhile nd (splitOn LF content)"
    by (simp add: tr_def trailingLines_def nd_def)
  have lines: "splitOn LF content = pre @ tr"
    by (simp add: pre_def tr_eq)
  have trne: "tr \<noteq> []" using assms(1) by (simp add: tr_def)
  have prene: "pre \<noteq> []"
    using assms(2) lines unfolding tr_def by auto
  have pre_nd: "\<forall>l\<in>set pre. nd l"
    unfolding pre_def by (auto dest: set_takeWhileD)
  have "\<not> nd (hd tr)"
    using hd_dropWhile [of nd "splitOn LF content"] trne unfolding tr_eq by simp
  then have tr_keep: "dropWhile nd tr = tr"
    using trne by (cases tr) auto
  have tr_nolf: "\<forall>l\<in>set tr. LF \<notin> set l"
    using splitOn_no_sep [of _ LF content] lines by auto
  have R_nd: "\<forall>l\<in>set (splitOn LF R). nd l"
    unfolding R_def nd_def using assms(4) by (rule rebuilt_lines_no_separator)
  obtain body where out: "writePrioritiesContent data content = body @ LF # joinWith [LF] tr"
    and body: "body = R \<or> (\<exists>z. body = R @ LF # z \<and> set (splitOn LF z) \<subseteq> set pre)"
    using write_keeps_lines [OF lines prene trne] assms(3) unfolding tr_def R_def by blast
  have body_nd: "\<forall>l\<in>set (splitOn LF body). nd l"
    using body
  proof
    assume "body = R"
    with R_nd show ?thesis by simp
  next
    assume "\<exists>z. body = R @ LF # z \<and> set (splitOn LF z) \<subseteq> set pre"
    then obtain z where z: "body = R @ LF # z" "set (splitOn LF z) \<subseteq> set pre" by blast
    then have "splitOn LF body = splitOn LF R @ splitOn LF z"
      by (simp add: splitOn_append)
    with R_nd pre_nd z(2) show ?thesis by auto
  qed
  have "splitOn LF (writePrioritiesContent data content)
      = splitOn LF body @ splitOn LF (joinWith [LF] tr)"
    unfolding out by (rule splitOn_append)
  also have "splitOn LF (joinWith [LF] tr) = tr"
    using trne tr_nolf by (simp add: splitOn_joinWith)
  finally have "trailingLines (writePrioritiesContent data content)
      = dropWhile nd (splitOn LF body @ tr)"
    by (simp add: trailingLines_def nd_def)
  also have "\<dots> = dropWhile nd tr"
    using body_nd by (simp add: dropWhile_append2)
  finally have "trailingLines (writePrioritiesContent data content) = tr"
    using tr_keep by simp
  then show ?thesis
    by (simp add: trailingRegion_def tr_def)
qed

text \<open>
  An instance: the document was edited (Alpha moved from Active to a new subsection of On
  Hold), and the region from the separator on, which names Alpha too, is written back as
  it was read.
\<close>

lemma writePrioritiesContent_keeps_region_behind_plain_separator_instance:
  "trailingRegion
     (writePrioritiesContent
        \<lparr>sections =
           [\<lparr>name = js ''Active'', orderedItems = []\<rparr>,
            \<lparr>name = js ''On Hold'',
             orderedItems =
               [Subsection (js ''Later'')
                  [\<lparr>projectName = js ''Alpha'', emoji = js ''x'', alias' = Some (js ''A'')\<rparr>]]\<rparr>],
         unlisted = []\<rparr>
        (js ''## Active\<newline>- x [[Alpha|A]]\<newline>## On Hold\<newline>--- \<newline>notes on [[Alpha]]\<newline>---\<newline>''))
   = js ''--- \<newline>notes on [[Alpha]]\<newline>---\<newline>''"
proof -
  let ?content = "(js ''## Active\<newline>- x [[Alpha|A]]\<newline>## On Hold\<newline>--- \<newline>notes on [[Alpha]]\<newline>---\<newline>'')"
  let ?data = "\<lparr>sections =
           [\<lparr>name = js ''Active'', orderedItems = []\<rparr>,
            \<lparr>name = js ''On Hold'',
             orderedItems =
               [Subsection (js ''Later'')
                  [\<lparr>projectName = js ''Alpha'', emoji = js ''x'', alias' = Some (js ''A'')\<rparr>]]\<rparr>],
         unlisted = []\<rparr>"
  have h1: "trailingLines ?content \<noteq> []" by code_simp
  have h2: "trailingLines ?content \<noteq> splitOn LF ?content" by code_simp
  have h3: "prefix (js ''---'') (hd (trailingLines ?content))" by code_simp
  have h4: "\<forall>l\<in>set (concat (map sectionLines (sections ?data))). LF \<notin> set l"
    by code_simp
  have r: "trailingRegion ?content = js ''--- \<newline>notes on [[Alpha]]\<newline>---\<newline>''"
    by code_simp
  show ?thesis
    using writePrioritiesContent_keeps_region_behind_plain_separator [OF h1 h2 h3 h4] r
    by simp
qed

section \<open>Properties of the path utilities\<close>

lemma replaceBackslashes_no_backslash: "backslash \<notin> set (replaceBackslashes p)"
  by (auto simp: replaceBackslashes_def backslash_def)

lemma replaceBackslashes_id: "backslash \<notin> set p \<Longrightarrow> replaceBackslashes p = p"
  by (induction p) (auto simp: replaceBackslashes_def)

lemma stripTrailingSlashes_subset: "set (stripTrailingSlashes s) \<subseteq> set s"
  by (induction s) auto

lemma stripTrailingSlashes_last:
  "stripTrailingSlashes s \<noteq> [] \<Longrightarrow> last (stripTrailingSlashes s) \<noteq> CHR ''/''"
proof (induction s)
  case Nil
  then show ?case by simp
next
  case (Cons c cs)
  show ?case
  proof (cases "list_all (\<lambda>x. x = CHR ''/'') (c # cs)")
    case True
    with Cons.prems show ?thesis by simp
  next
    case False
    show ?thesis
    proof (cases "stripTrailingSlashes cs = []")
      case True
      have "cs = [] \<or> list_all (\<lambda>x. x = CHR ''/'') cs"
        using True by (cases cs) (auto split: if_splits)
      then have "c \<noteq> CHR ''/''"
        using False by auto
      with False True show ?thesis by simp
    next
      case nonempty: False
      with Cons.IH False show ?thesis by auto
    qed
  qed
qed

lemma stripTrailingSlashes_id:
  "s = [] \<or> last s \<noteq> CHR ''/'' \<Longrightarrow> stripTrailingSlashes s = s"
proof (induction s)
  case Nil
  then show ?case by simp
next
  case (Cons c cs)
  from Cons.prems have l: "last (c # cs) \<noteq> CHR ''/''" by simp
  have "last (c # cs) \<in> set (c # cs)" by (rule last_in_set) simp
  with l have nall: "\<not> list_all (\<lambda>x. x = CHR ''/'') (c # cs)"
    unfolding list_all_iff by blast
  from l have "cs = [] \<or> last cs \<noteq> CHR ''/''" by (cases cs) auto
  with Cons.IH nall show ?case by simp
qed

lemma collapseSlashes_subset: "set (collapseSlashes s) \<subseteq> set s"
proof (induction s rule: collapseSlashes.induct)
  case 1
  then show ?case by simp
next
  case (2 c cs)
  have "set (dropWhile (\<lambda>x. x = CHR ''/'') cs) \<subseteq> set cs"
    by (rule set_dropWhileD [THEN subsetI])
  with 2 show ?case by auto
qed

lemma collapseSlashes_Nil_iff: "collapseSlashes s = [] \<longleftrightarrow> s = []"
  by (cases s) auto

lemma collapseSlashes_last: "s \<noteq> [] \<Longrightarrow> last (collapseSlashes s) = last s"
proof (induction s rule: collapseSlashes.induct)
  case 1
  then show ?case by simp
next
  case (2 c cs)
  show ?case
  proof (cases "c = CHR ''/''")
    case True
    let ?d = "dropWhile (\<lambda>x. x = CHR ''/'') cs"
    show ?thesis
    proof (cases "?d = []")
      case True
      then have allsl: "\<forall>x\<in>set cs. x = CHR ''/''"
        by (simp add: dropWhile_eq_Nil_conv)
      have "last (c # cs) = CHR ''/''"
      proof (cases "cs = []")
        case True
        with \<open>c = CHR ''/''\<close> show ?thesis by simp
      next
        case False
        then have "last cs \<in> set cs" by simp
        with allsl False show ?thesis by simp
      qed
      moreover have "collapseSlashes (CHR ''/'' # cs) = CHR ''/'' # collapseSlashes ?d"
        by simp
      ultimately show ?thesis
        unfolding \<open>c = CHR ''/''\<close> True by simp
    next
      case False
      then have csne: "cs \<noteq> []" by auto
      have dl: "last ?d = last cs"
        using False last_appendR [of ?d "takeWhile (\<lambda>x. x = CHR ''/'') cs"]
        by simp
      have ih: "last (collapseSlashes ?d) = last ?d"
        using "2.IH"(1) True False by blast
      have cne: "collapseSlashes ?d \<noteq> []"
        using False by (simp only: collapseSlashes_Nil_iff not_False_eq_True)
      have "collapseSlashes (c # cs) = CHR ''/'' # collapseSlashes ?d"
        using True by simp
      then have "last (collapseSlashes (c # cs)) = last (collapseSlashes ?d)"
        using cne by simp
      also have "\<dots> = last cs" using ih dl by simp
      also have "\<dots> = last (c # cs)" using csne by simp
      finally show ?thesis .
    qed
  next
    case False
    show ?thesis
    proof (cases "cs = []")
      case True
      with False show ?thesis by simp
    next
      case csne: False
      then have "last (collapseSlashes cs) = last cs"
        using "2.IH"(2) False by blast
      with False csne show ?thesis
        by (simp add: collapseSlashes_Nil_iff)
    qed
  qed
qed

lemma collapseSlashes_no_run: "\<not> sublist ''//'' (collapseSlashes s)"
proof (induction s rule: collapseSlashes.induct)
  case 1
  then show ?case by simp
next
  case (2 c cs)
  show ?case
  proof (cases "c = CHR ''/''")
    case True
    let ?d = "dropWhile (\<lambda>x. x = CHR ''/'') cs"
    have hdne: "collapseSlashes ?d = [] \<or> hd (collapseSlashes ?d) \<noteq> CHR ''/''"
    proof (cases ?d)
      case Nil
      show ?thesis unfolding Nil by simp
    next
      case (Cons y ys)
      then have "y \<noteq> CHR ''/''"
        using hd_dropWhile [of "\<lambda>x. x = CHR ''/''" cs] by simp
      then show ?thesis
        unfolding Cons by simp
    qed
    have "\<not> prefix ''//'' (CHR ''/'' # collapseSlashes ?d)"
      using hdne by (cases "collapseSlashes ?d") auto
    with 2 True show ?thesis
      by (simp add: sublist_Cons_right)
  next
    case False
    with 2 show ?thesis
      by (simp add: sublist_Cons_right)
  qed
qed

lemma collapseSlashes_id: "\<not> sublist ''//'' s \<Longrightarrow> collapseSlashes s = s"
proof (induction s rule: collapseSlashes.induct)
  case 1
  then show ?case by simp
next
  case (2 c cs)
  from "2.prems" have tl: "\<not> sublist ''//'' cs" and pre: "\<not> prefix ''//'' (c # cs)"
    by (simp_all add: sublist_Cons_right)
  show ?case
  proof (cases "c = CHR ''/''")
    case True
    with pre have "cs = [] \<or> hd cs \<noteq> CHR ''/''" by (cases cs) auto
    then have "dropWhile (\<lambda>x. x = CHR ''/'') cs = cs" by (cases cs) auto
    with 2 True tl show ?thesis by simp
  next
    case False
    with 2 tl show ?thesis by simp
  qed
qed

lemma normalizePath_no_backslash: "backslash \<notin> set (normalizePath p)"
proof -
  have "set (collapseSlashes (stripTrailingSlashes (replaceBackslashes p)))
      \<subseteq> set (replaceBackslashes p)"
    using collapseSlashes_subset stripTrailingSlashes_subset by blast
  then show ?thesis
    using replaceBackslashes_no_backslash [of p] by (auto simp: normalizePath_def)
qed

lemma normalizePath_last:
  "normalizePath p \<noteq> [] \<Longrightarrow> last (normalizePath p) \<noteq> CHR ''/''"
proof -
  assume ne: "normalizePath p \<noteq> []"
  let ?s = "stripTrailingSlashes (replaceBackslashes p)"
  from ne have eq: "normalizePath p = collapseSlashes ?s"
    by (auto simp: normalizePath_def)
  with ne have sne: "?s \<noteq> []" by (simp add: collapseSlashes_Nil_iff)
  then have "last (collapseSlashes ?s) = last ?s" by (rule collapseSlashes_last)
  with stripTrailingSlashes_last [OF sne] eq show ?thesis by simp
qed

lemma normalizePath_no_run: "\<not> sublist ''//'' (normalizePath p)"
  by (simp add: normalizePath_def collapseSlashes_no_run)

lemma normalizePath_idem: "normalizePath (normalizePath p) = normalizePath p"
proof (cases "normalizePath p = []")
  case True
  then show ?thesis by (simp add: normalizePath_def)
next
  case False
  let ?q = "normalizePath p"
  have "replaceBackslashes ?q = ?q"
    by (rule replaceBackslashes_id) (rule normalizePath_no_backslash)
  moreover have "stripTrailingSlashes ?q = ?q"
    by (rule stripTrailingSlashes_id) (use False normalizePath_last in blast)
  moreover have "collapseSlashes ?q = ?q"
    by (rule collapseSlashes_id) (rule normalizePath_no_run)
  ultimately show ?thesis
    using False by (simp add: normalizePath_def [of ?q])
qed

text \<open>
  Claim C10. \<^verbatim>\<open>normalizePath\<close> is idempotent, and for every string its output contains
  no backslash, does not end with a slash, and contains no two consecutive slashes.
\<close>

theorem normalizePath_idempotent_normal_form:
  "normalizePath (normalizePath p) = normalizePath p
   \<and> backslash \<notin> set (normalizePath p)
   \<and> \<not> suffix ''/'' (normalizePath p)
   \<and> \<not> sublist ''//'' (normalizePath p)"
proof -
  have "\<not> suffix ''/'' (normalizePath p)"
  proof
    assume "suffix ''/'' (normalizePath p)"
    then obtain a where a: "normalizePath p = a @ ''/''"
      by (auto simp: suffix_def)
    then have "normalizePath p \<noteq> []" and "last (normalizePath p) = CHR ''/''"
      by simp_all
    with normalizePath_last show False by blast
  qed
  then show ?thesis
    using normalizePath_idem normalizePath_no_backslash normalizePath_no_run by blast
qed

theorem normalizePath_idempotent_normal_form_witness:
  "normalizePath (normalizePath (''C:'' @ [backslash] @ ''vault//10 - Project///''))
     = ''C:/vault/10 - Project''
   \<and> backslash \<notin> set (normalizePath (''C:'' @ [backslash] @ ''vault//10 - Project///''))
   \<and> \<not> suffix ''/'' (normalizePath (''C:'' @ [backslash] @ ''vault//10 - Project///''))
   \<and> \<not> sublist ''//'' (normalizePath (''C:'' @ [backslash] @ ''vault//10 - Project///''))"
proof -
  have "normalizePath (''C:'' @ [backslash] @ ''vault//10 - Project///'')
      = ''C:/vault/10 - Project''"
    by (simp add: normalizePath_def replaceBackslashes_def backslash_def)
  then show ?thesis
    using normalizePath_idempotent_normal_form
      [of "''C:'' @ [backslash] @ ''vault//10 - Project///''"]
    by simp
qed

lemma splitOn_first_segment:
  "\<exists>segs. splitOn sep s = takeWhile (\<lambda>c. c \<noteq> sep) s # segs"
  by (induction s) auto

lemma getProjectNameFromPath_Some:
  assumes "getProjectNameFromPath fullPath projectFolder = Some seg"
  shows "normalizePath projectFolder \<noteq> []"
    and "prefix (normalizePath projectFolder @ ''/'') (normalizePath fullPath)"
    and "seg = takeWhile (\<lambda>c. c \<noteq> CHR ''/'')
           (drop (length (normalizePath projectFolder) + 1) (normalizePath fullPath))"
    and "seg \<noteq> []"
proof -
  let ?np = "normalizePath fullPath" and ?npf = "normalizePath projectFolder"
  let ?rel = "drop (length ?npf + 1) ?np"
  from assms show g1: "?npf \<noteq> []"
    by (auto simp: getProjectNameFromPath_def Let_def split: if_splits)
  from assms show g2: "prefix (?npf @ ''/'') ?np"
    by (auto simp: getProjectNameFromPath_def Let_def split: if_splits)
  obtain segs where segs: "splitOn (CHR ''/'') ?rel = takeWhile (\<lambda>c. c \<noteq> CHR ''/'') ?rel # segs"
    using splitOn_first_segment [of "CHR ''/''" ?rel] by auto
  from assms g1 g2 segs show "seg = takeWhile (\<lambda>c. c \<noteq> CHR ''/'') ?rel"
    by (auto simp: getProjectNameFromPath_def Let_def split: if_splits)
  from assms g1 g2 segs show "seg \<noteq> []"
    by (auto simp: getProjectNameFromPath_def Let_def split: if_splits)
qed

text \<open>
  Claim C9. \<^verbatim>\<open>getProjectNameFromPath\<close> returns \<^verbatim>\<open>null\<close> when the project folder
  normalizes to the empty string; every non-null result is non-empty and is the first
  path segment after the project folder: the normalized path is the normalized folder,
  a slash, the result (which contains no slash), and a rest that is empty or starts with
  a slash. So a non-null result needs a normalized path that strictly extends the
  normalized folder followed by a slash.
\<close>

theorem getProjectNameFromPath_first_segment:
  "(normalizePath projectFolder = [] \<longrightarrow> getProjectNameFromPath fullPath projectFolder = None)
   \<and> getProjectNameFromPath fullPath projectFolder \<noteq> Some []
   \<and> (\<forall>seg. getProjectNameFromPath fullPath projectFolder = Some seg \<longrightarrow>
         seg \<noteq> [] \<and> CHR ''/'' \<notin> set seg
         \<and> (\<exists>rest. normalizePath fullPath = normalizePath projectFolder @ ''/'' @ seg @ rest
                \<and> (rest = [] \<or> hd rest = CHR ''/'')))"
proof (intro conjI allI impI)
  assume "normalizePath projectFolder = []"
  then show "getProjectNameFromPath fullPath projectFolder = None"
    by (simp add: getProjectNameFromPath_def)
next
  show "getProjectNameFromPath fullPath projectFolder \<noteq> Some []"
    using getProjectNameFromPath_Some(4) by blast
next
  fix seg
  assume a: "getProjectNameFromPath fullPath projectFolder = Some seg"
  then show "seg \<noteq> []" by (rule getProjectNameFromPath_Some(4))
next
  fix seg
  assume a: "getProjectNameFromPath fullPath projectFolder = Some seg"
  have "seg = takeWhile (\<lambda>c. c \<noteq> CHR ''/'')
           (drop (length (normalizePath projectFolder) + 1) (normalizePath fullPath))"
    using a by (rule getProjectNameFromPath_Some(3))
  then show "CHR ''/'' \<notin> set seg"
    using set_takeWhileD by fastforce
next
  fix seg
  assume a: "getProjectNameFromPath fullPath projectFolder = Some seg"
  let ?np = "normalizePath fullPath" and ?npf = "normalizePath projectFolder"
  let ?rel = "drop (length ?npf + 1) ?np"
  let ?rest = "dropWhile (\<lambda>c. c \<noteq> CHR ''/'') ?rel"
  have n: "seg = takeWhile (\<lambda>c. c \<noteq> CHR ''/'') ?rel"
    using a by (rule getProjectNameFromPath_Some(3))
  have "prefix (?npf @ ''/'') ?np"
    using a by (rule getProjectNameFromPath_Some(2))
  then obtain r where r: "?np = (?npf @ ''/'') @ r"
    by (auto simp: prefix_def)
  then have "?rel = r"
    by (metis add.commute append_eq_conv_conj length_append_singleton plus_1_eq_Suc)
  with r n have "?np = ?npf @ ''/'' @ seg @ ?rest"
    by simp
  moreover have "?rest = [] \<or> hd ?rest = CHR ''/''"
    using hd_dropWhile [of "\<lambda>c. c \<noteq> CHR ''/''" ?rel] by auto
  ultimately show "\<exists>rest. ?np = ?npf @ ''/'' @ seg @ rest \<and> (rest = [] \<or> hd rest = CHR ''/'')"
    by blast
qed

theorem getProjectNameFromPath_first_segment_witness:
  "getProjectNameFromPath ''10 - Project/Alpha/notes/a.md'' ''10 - Project/'' = Some ''Alpha''
   \<and> (\<exists>rest. normalizePath ''10 - Project/Alpha/notes/a.md''
            = normalizePath ''10 - Project/'' @ ''/'' @ ''Alpha'' @ rest
          \<and> (rest = [] \<or> hd rest = CHR ''/''))
   \<and> getProjectNameFromPath ''10 - Project/Alpha'' ''/'' = None"
proof -
  have e: "getProjectNameFromPath ''10 - Project/Alpha/notes/a.md'' ''10 - Project/'' = Some ''Alpha''"
    by (simp add: getProjectNameFromPath_def normalizePath_def replaceBackslashes_def
        backslash_def)
  have z: "normalizePath ''/'' = []"
    by (simp add: normalizePath_def replaceBackslashes_def backslash_def)
  show ?thesis
    using getProjectNameFromPath_first_segment
      [of "''10 - Project/''" "''10 - Project/Alpha/notes/a.md''"]
      getProjectNameFromPath_first_segment [of "''/''" "''10 - Project/Alpha''"] e z
    by blast
qed

end
